theory Spec2Isabelle
  imports Main "HOL-Library.Sublist"
begin

section \<open>Strings, paths and the environment\<close>

text \<open>
  \<^verbatim>\<open>fs::path\<close>, \<^verbatim>\<open>mob::url\<close> and \<^verbatim>\<open>std::string\<close> are all byte strings here.
\<close>

type_synonym path = string
type_synonym url = string
type_synonym env = "(string \<times> string) list"

text \<open>
  Modelled from the spec: \<^verbatim>\<open>env::set\<close> (core/env.h) is not part of the sources at hand.
  Setting a variable replaces the value of an existing entry and appends a new entry
  otherwise, so that the override wins over the ambient value.
\<close>

fun env_set :: "string \<Rightarrow> string \<Rightarrow> env \<Rightarrow> env" where
  "env_set k v [] = [(k, v)]"
| "env_set k v ((k', v') # e) =
     (if k' = k then (k, v) # e else (k', v') # env_set k v e)"

definition env_get :: "string \<Rightarrow> env \<Rightarrow> string option" where
  "env_get k e = map_of e k"

text \<open>\<^verbatim>\<open>std::string::find_last_of\<close> with a single character: the last index, or npos.\<close>

fun find_last_of :: "string \<Rightarrow> char \<Rightarrow> nat option" where
  "find_last_of [] c = None"
| "find_last_of (x # xs) c =
     (case find_last_of xs c of
        Some i \<Rightarrow> Some (Suc i)
      | None \<Rightarrow> if x = c then Some 0 else None)"

text \<open>\<^verbatim>\<open>std::string::substr(pos)\<close>, for \<open>pos \<le> size\<close> (the only use made of it).\<close>

definition substr :: "string \<Rightarrow> nat \<Rightarrow> string" where
  "substr s pos = drop pos s"

definition ends_with :: "string \<Rightarrow> string \<Rightarrow> bool" where
  "ends_with s sx = (length sx \<le> length s \<and> drop (length s - length sx) s = sx)"

text \<open>
  Modelled from the spec: \<^verbatim>\<open>trim_copy\<close> (utility/string.h) is not part of the sources at
  hand. It removes blanks, tabs, carriage returns and line feeds from both ends.
\<close>

definition is_space :: "char \<Rightarrow> bool" where
  "is_space c = (c = CHR '' '' \<or> c = CHR 0x09 \<or> c = CHR 0x0D \<or> c = CHR 0x0A)"

definition trim_copy :: "string \<Rightarrow> string" where
  "trim_copy s = rev (dropWhile is_space (rev (dropWhile is_space s)))"

text \<open>
  \<^verbatim>\<open>fs::path::extension\<close> as the C++ standard defines it: the part of the file name from
  its last dot on, empty for the names \<^verbatim>\<open>.\<close> and \<^verbatim>\<open>..\<close>, for a name with no dot, and for
  a name whose only dot is its first character.
\<close>

definition is_separator :: "char \<Rightarrow> bool" where
  "is_separator c = (c = CHR ''/'' \<or> c = CHR 0x5C)"

definition filename :: "path \<Rightarrow> string" where
  "filename p = rev (takeWhile (\<lambda>c. \<not> is_separator c) (rev p))"

definition extension :: "path \<Rightarrow> string" where
  "extension p =
     (let f = filename p in
      if f = ''.'' \<or> f = ''..'' then []
      else case find_last_of f (CHR ''.'') of
             None \<Rightarrow> []
           | Some 0 \<Rightarrow> []
           | Some (Suc i) \<Rightarrow> drop (Suc i) f)"

text \<open>\<^verbatim>\<open>operator/\<close> on paths: a separator is added unless the left side ends with one.\<close>

definition path_append :: "path \<Rightarrow> string \<Rightarrow> path" where
  "path_append a b =
     (if a = [] \<or> is_separator (last a) then a @ b else a @ ''/'' @ b)"

section \<open>Invocations\<close>

datatype level = Dump | Trace | Debug | Info | Warning | Error

datatype arg_flags = noflags | log_quiet | forward_slashes

datatype arg = Arg string arg_flags | ArgKV string string arg_flags

datatype process_flags = no_process_flags | allow_failure

datatype stream_flags = no_stream_flags | keep_in_string

text \<open>The one stderr filter of the file: lines with "not a git repo" go to trace level.\<close>

datatype stderr_filter = not_a_git_repo_to_trace

text \<open>
  The description of one external process, as the builder methods of \<^verbatim>\<open>process\<close> fill it.
  A level that no builder sets stays \<open>None\<close> (the primitive's default).
\<close>

record process =
  proc_binary :: path
  proc_env :: env
  proc_args :: "arg list"
  proc_cwd :: "path option"
  proc_stdin :: "string option"
  proc_flags :: process_flags
  proc_stdout_flags :: stream_flags
  proc_stdout_level :: "level option"
  proc_stderr_level :: "level option"
  proc_stderr_filter :: "stderr_filter option"

definition new_process :: process where
  "new_process =
     \<lparr>proc_binary = [], proc_env = [], proc_args = [], proc_cwd = None,
      proc_stdin = None, proc_flags = no_process_flags,
      proc_stdout_flags = no_stream_flags, proc_stdout_level = None,
      proc_stderr_level = None, proc_stderr_filter = None\<rparr>"

definition binary :: "path \<Rightarrow> process \<Rightarrow> process" where
  "binary b p = p\<lparr>proc_binary := b\<rparr>"

definition env :: "env \<Rightarrow> process \<Rightarrow> process" where
  "env e p = p\<lparr>proc_env := e\<rparr>"

definition arg :: "string \<Rightarrow> process \<Rightarrow> process" where
  "arg v p = p\<lparr>proc_args := proc_args p @ [Arg v noflags]\<rparr>"

definition arg_f :: "string \<Rightarrow> arg_flags \<Rightarrow> process \<Rightarrow> process" where
  "arg_f v f p = p\<lparr>proc_args := proc_args p @ [Arg v f]\<rparr>"

definition arg_kv :: "string \<Rightarrow> string \<Rightarrow> process \<Rightarrow> process" where
  "arg_kv k v p = p\<lparr>proc_args := proc_args p @ [ArgKV k v noflags]\<rparr>"

definition arg_kv_f :: "string \<Rightarrow> string \<Rightarrow> arg_flags \<Rightarrow> process \<Rightarrow> process" where
  "arg_kv_f k v f p = p\<lparr>proc_args := proc_args p @ [ArgKV k v f]\<rparr>"

definition cwd :: "path \<Rightarrow> process \<Rightarrow> process" where
  "cwd d p = p\<lparr>proc_cwd := Some d\<rparr>"

definition stdin_string :: "string \<Rightarrow> process \<Rightarrow> process" where
  "stdin_string s p = p\<lparr>proc_stdin := Some s\<rparr>"

definition flags :: "process_flags \<Rightarrow> process \<Rightarrow> process" where
  "flags f p = p\<lparr>proc_flags := f\<rparr>"

definition stdout_flags :: "stream_flags \<Rightarrow> process \<Rightarrow> process" where
  "stdout_flags f p = p\<lparr>proc_stdout_flags := f\<rparr>"

definition stdout_level :: "level \<Rightarrow> process \<Rightarrow> process" where
  "stdout_level l p = p\<lparr>proc_stdout_level := Some l\<rparr>"

definition stderr_level :: "level \<Rightarrow> process \<Rightarrow> process" where
  "stderr_level l p = p\<lparr>proc_stderr_level := Some l\<rparr>"

definition stderr_filter :: "stderr_filter \<Rightarrow> process \<Rightarrow> process" where
  "stderr_filter f p = p\<lparr>proc_stderr_filter := Some f\<rparr>"

text \<open>A chain of builder calls \<^verbatim>\<open>p.a(..).b(..)\<close>, applied left to right.\<close>

definition chain :: "process \<Rightarrow> (process \<Rightarrow> process) list \<Rightarrow> process" where
  "chain p fs = foldl (\<lambda>q f. f q) p fs"

section \<open>Configuration\<close>

text \<open>
  What the code reads from \<^verbatim>\<open>conf()\<close> and \<^verbatim>\<open>this_env::get()\<close>: the path of the git
  binary, the global option \<^verbatim>\<open>ignore_uncommitted\<close>, and the ambient environment.
\<close>

record conf =
  conf_tool_git :: path
  conf_ignore_uncommitted :: bool
  conf_this_env :: env

section \<open>The command layer (namespace details)\<close>

definition make_process :: "conf \<Rightarrow> process" where
  "make_process c =
     (let e = env_set ''GIT_TERMINAL_PROMPT'' ''0''
                (env_set ''GCM_INTERACTIVE'' ''never'' (conf_this_env c))
      in chain new_process [binary (conf_tool_git c), env e])"

definition details_init :: "conf \<Rightarrow> path \<Rightarrow> process" where
  "details_init c root = chain (make_process c) [arg ''init'', cwd root]"

definition details_set_config :: "conf \<Rightarrow> path \<Rightarrow> string \<Rightarrow> string \<Rightarrow> process" where
  "details_set_config c root key val =
     chain (make_process c)
       [stderr_level Trace, arg ''config'', arg key, arg val, cwd root]"

definition details_apply :: "conf \<Rightarrow> path \<Rightarrow> string \<Rightarrow> process" where
  "details_apply c root diff =
     chain (make_process c)
       [stdin_string diff, arg ''apply'', arg_kv ''--whitespace'' ''nowarn'',
        arg ''-'', cwd root]"

definition details_fetch :: "conf \<Rightarrow> path \<Rightarrow> string \<Rightarrow> string \<Rightarrow> process" where
  "details_fetch c root remote branch =
     chain (make_process c)
       [arg ''fetch'', arg ''-q'', arg remote, arg branch, cwd root]"

definition details_checkout :: "conf \<Rightarrow> path \<Rightarrow> string \<Rightarrow> process" where
  "details_checkout c root what =
     chain (make_process c)
       [arg_kv ''-c'' ''advice.detachedHead=false'', arg ''checkout'', arg ''-q'',
        arg what, cwd root]"

definition details_revert :: "conf \<Rightarrow> path \<Rightarrow> path \<Rightarrow> process" where
  "details_revert c root file =
     chain (make_process c)
       [stderr_level Trace, arg ''checkout'', arg file, cwd root]"

definition details_current_branch :: "conf \<Rightarrow> path \<Rightarrow> process" where
  "details_current_branch c root =
     chain (make_process c)
       [stdout_flags keep_in_string, arg ''branch'', arg ''--show-current'', cwd root]"

definition details_add_submodule ::
  "conf \<Rightarrow> path \<Rightarrow> string \<Rightarrow> string \<Rightarrow> url \<Rightarrow> process" where
  "details_add_submodule c root branch submodule u =
     chain (make_process c)
       [stderr_level Trace, arg_kv ''-c'' ''core.autocrlf=false'', arg ''submodule'',
        arg ''--quiet'', arg ''add'', arg_kv ''-b'' branch, arg ''--force'',
        arg_kv ''--name'' submodule, arg u, arg submodule, cwd root]"

definition details_clone :: "conf \<Rightarrow> path \<Rightarrow> url \<Rightarrow> string \<Rightarrow> bool \<Rightarrow> process" where
  "details_clone c root u branch shallow =
     (let p = chain (make_process c)
                [stderr_level Trace, arg ''clone'', arg ''--recurse-submodules''];
          p = (if shallow then arg_kv ''--depth'' ''1'' p else p)
      in chain p
           [arg_kv ''--branch'' branch, arg_f ''--quiet'' log_quiet,
            arg_kv_f ''-c'' ''advice.detachedHead=false'' log_quiet, arg u, arg root])"

definition details_pull :: "conf \<Rightarrow> path \<Rightarrow> url \<Rightarrow> string \<Rightarrow> process" where
  "details_pull c root u branch =
     chain (make_process c)
       [stderr_level Trace, arg ''pull'', arg ''--recurse-submodules'',
        arg_f ''--quiet'' log_quiet, arg u, arg branch, cwd root]"

definition details_has_remote :: "conf \<Rightarrow> path \<Rightarrow> string \<Rightarrow> process" where
  "details_has_remote c root name =
     chain (make_process c)
       [flags allow_failure, stderr_level Debug, arg ''config'',
        arg (''remote.'' @ name @ ''.url''), cwd root]"

definition details_rename_remote :: "conf \<Rightarrow> path \<Rightarrow> string \<Rightarrow> string \<Rightarrow> process" where
  "details_rename_remote c root from to =
     chain (make_process c)
       [arg ''remote'', arg ''rename'', arg from, arg to, cwd root]"

definition details_add_remote :: "conf \<Rightarrow> path \<Rightarrow> string \<Rightarrow> string \<Rightarrow> process" where
  "details_add_remote c root name u =
     chain (make_process c) [arg ''remote'', arg ''add'', arg name, arg u, cwd root]"

definition details_set_remote_push :: "conf \<Rightarrow> path \<Rightarrow> string \<Rightarrow> string \<Rightarrow> process" where
  "details_set_remote_push c root remote u =
     chain (make_process c)
       [arg ''remote'', arg ''set-url'', arg ''--push'', arg remote, arg u, cwd root]"

definition details_set_assume_unchanged :: "conf \<Rightarrow> path \<Rightarrow> path \<Rightarrow> bool \<Rightarrow> process" where
  "details_set_assume_unchanged c root file on =
     chain (make_process c)
       [arg ''update-index'',
        arg (if on then ''--assume-unchanged'' else ''--no-assume-unchanged''),
        arg_f file forward_slashes, cwd root]"

definition details_is_tracked :: "conf \<Rightarrow> path \<Rightarrow> path \<Rightarrow> process" where
  "details_is_tracked c root file =
     chain (make_process c)
       [stdout_level Debug, stderr_level Debug, flags allow_failure, arg ''ls-files'',
        arg ''--error-unmatch'', arg_f file forward_slashes, cwd root]"

definition details_is_repo :: "conf \<Rightarrow> path \<Rightarrow> process" where
  "details_is_repo c root =
     chain (make_process c)
       [arg ''rev-parse'', arg ''--is-inside-work-tree'',
        stderr_filter not_a_git_repo_to_trace, flags allow_failure, cwd root]"

definition details_remote_branch_exists :: "conf \<Rightarrow> url \<Rightarrow> string \<Rightarrow> process" where
  "details_remote_branch_exists c u branch =
     chain (make_process c)
       [flags allow_failure, arg ''ls-remote'', arg ''--exit-code'', arg ''--heads'',
        arg u, arg branch]"

definition details_has_uncommitted_changes :: "conf \<Rightarrow> path \<Rightarrow> process" where
  "details_has_uncommitted_changes c root =
     chain (make_process c)
       [flags allow_failure, stdout_flags keep_in_string, arg ''status'', arg ''-s'',
        arg ''--porcelain'', cwd root]"

definition details_has_stashed_changes :: "conf \<Rightarrow> path \<Rightarrow> process" where
  "details_has_stashed_changes c root =
     chain (make_process c)
       [flags allow_failure, stderr_level Trace, arg ''stash show'', cwd root]"

definition details_remote_url :: "conf \<Rightarrow> path \<Rightarrow> process" where
  "details_remote_url c root =
     chain (make_process c)
       [stdout_flags keep_in_string, arg ''remote'', arg ''get-url'', arg ''origin'',
        cwd root]"

text \<open>
  \<^verbatim>\<open>make_url\<close>: the format string has two places, for the organisation and the git file;
  a pattern is kept as the three pieces around them.
\<close>

type_synonym git_url_pattern_format_string = "string \<times> string \<times> string"

definition format2 :: "git_url_pattern_format_string \<Rightarrow> string \<Rightarrow> string \<Rightarrow> string" where
  "format2 pat a b = (case pat of (x, y, z) \<Rightarrow> x @ a @ y @ b @ z)"

definition make_url ::
  "string \<Rightarrow> string \<Rightarrow> git_url_pattern_format_string option \<Rightarrow> string" where
  "make_url org git_file url_pattern =
     format2 (case url_pattern of Some pat \<Rightarrow> pat
              | None \<Rightarrow> (''git@github.com:'', ''/'', [])) org git_file"

section \<open>Effects: the world, the trace, and fatal errors\<close>

text \<open>
  \<^verbatim>\<open>bailed\<close> is the one exception the code throws and catches.
\<close>

datatype error = Bailed

text \<open>
  What an operation does to its surroundings is recorded in order: every process handed
  to the process primitive (with the name of the runner it went through, if any), every
  line handed to the log context with its level, and every directory handed to
  \<^verbatim>\<open>op::delete_directory\<close>.
\<close>

datatype event = Ran "string option" process | Logged level string | Deleted path

record 'w state =
  world :: 'w
  trace :: "event list"

type_synonym ('w, 'a) action = "'w state \<Rightarrow> (error + 'a) \<times> 'w state"

text \<open>
  The external collaborators, over a world \<open>'w\<close> of which the code knows nothing:
  \<^item> \<open>sys_exec\<close>: the process primitive; it runs a process to its end and gives the exit
    code and what the process wrote to stdout;
  \<^item> \<open>sys_exists\<close>: \<^verbatim>\<open>fs::exists\<close>;
  \<^item> \<open>sys_recursive_directory_iterator\<close>: the entries below a directory, each with
    \<^verbatim>\<open>is_regular_file()\<close>;
  \<^item> \<open>sys_relative\<close>: \<^verbatim>\<open>fs::relative\<close>;
  \<^item> \<open>sys_delete_directory\<close>: \<^verbatim>\<open>op::delete_directory\<close> with \<^verbatim>\<open>op::optional\<close>, which may
    itself bail out.
\<close>

record 'w sys =
  sys_conf :: conf
  sys_exec :: "process \<Rightarrow> 'w \<Rightarrow> (int \<times> string) \<times> 'w"
  sys_exists :: "path \<Rightarrow> 'w \<Rightarrow> bool"
  sys_recursive_directory_iterator :: "path \<Rightarrow> 'w \<Rightarrow> (path \<times> bool) list"
  sys_relative :: "path \<Rightarrow> path \<Rightarrow> path"
  sys_delete_directory :: "path \<Rightarrow> 'w \<Rightarrow> (error + unit) \<times> 'w"

definition ret :: "'a \<Rightarrow> ('w, 'a) action" where
  "ret x s = (Inr x, s)"

definition then_do :: "('w, 'a) action \<Rightarrow> ('a \<Rightarrow> ('w, 'b) action) \<Rightarrow> ('w, 'b) action" where
  "then_do m f s = (case m s of (Inl e, s') \<Rightarrow> (Inl e, s') | (Inr x, s') \<Rightarrow> f x s')"

definition throw_bailed :: "('w, 'a) action" where
  "throw_bailed s = (Inl Bailed, s)"

definition log :: "level \<Rightarrow> string \<Rightarrow> ('w, unit) action" where
  "log lv msg s = (Inr (), s\<lparr>trace := trace s @ [Logged lv msg]\<rparr>)"

text \<open>
  Modelled from the spec: \<^verbatim>\<open>context::bail_out\<close> (core/context.h) is not part of the
  sources at hand. It reports the message as an error and unwinds with \<^verbatim>\<open>bailed\<close>.
\<close>

definition bail_out :: "string \<Rightarrow> ('w, 'a) action" where
  "bail_out msg = then_do (log Error msg) (\<lambda>_. throw_bailed)"

text \<open>
  Modelled from the spec: \<^verbatim>\<open>process::run_and_join\<close> and
  \<^verbatim>\<open>basic_process_runner::execute_and_join\<close> (core/process.h, tools.h) are not part of the
  sources at hand. The process runs to its end; a nonzero exit code is a fatal error
  unless the process allows failure; the exit code is returned, and \<^verbatim>\<open>stdout_string()\<close>
  afterwards holds the output only if the process keeps it in a string.
\<close>

definition join :: "'w sys \<Rightarrow> string option \<Rightarrow> process \<Rightarrow> ('w, int \<times> string) action" where
  "join sys runner p s =
     (case sys_exec sys p (world s) of
        ((code, out), w') \<Rightarrow>
          (let s' = \<lparr>world = w', trace = trace s @ [Ran runner p]\<rparr> in
           if code \<noteq> 0 \<and> proc_flags p \<noteq> allow_failure then (Inl Bailed, s')
           else (Inr (code, if proc_stdout_flags p = keep_in_string then out else []), s')))"

definition run_and_join :: "'w sys \<Rightarrow> process \<Rightarrow> ('w, int \<times> string) action" where
  "run_and_join sys p = join sys None p"

definition execute_and_join :: "'w sys \<Rightarrow> string \<Rightarrow> process \<Rightarrow> ('w, int \<times> string) action" where
  "execute_and_join sys runner p = join sys (Some runner) p"

definition op_delete_directory :: "'w sys \<Rightarrow> path \<Rightarrow> ('w, unit) action" where
  "op_delete_directory sys dir s =
     (case sys_delete_directory sys dir (world s) of
        (r, w') \<Rightarrow> (r, \<lparr>world = w', trace = trace s @ [Deleted dir]\<rparr>))"

section \<open>The repository wrapper (class git_wrap)\<close>

record git_wrap =
  gw_root :: path
  gw_runner :: "string option"

definition run :: "'w sys \<Rightarrow> git_wrap \<Rightarrow> process \<Rightarrow> ('w, int \<times> string) action" where
  "run sys g p =
     (case gw_runner g of
        Some r \<Rightarrow> execute_and_join sys r p
      | None \<Rightarrow> run_and_join sys p)"

definition clone :: "'w sys \<Rightarrow> git_wrap \<Rightarrow> url \<Rightarrow> string \<Rightarrow> bool \<Rightarrow> ('w, unit) action" where
  "clone sys g u branch shallow =
     then_do (run sys g (details_clone (sys_conf sys) (gw_root g) u branch shallow))
       (\<lambda>_. ret ())"

definition pull :: "'w sys \<Rightarrow> git_wrap \<Rightarrow> url \<Rightarrow> string \<Rightarrow> ('w, unit) action" where
  "pull sys g u branch =
     then_do (run sys g (details_pull (sys_conf sys) (gw_root g) u branch)) (\<lambda>_. ret ())"

definition set_config :: "'w sys \<Rightarrow> git_wrap \<Rightarrow> string \<Rightarrow> string \<Rightarrow> ('w, unit) action" where
  "set_config sys g key val =
     then_do (run sys g (details_set_config (sys_conf sys) (gw_root g) key val))
       (\<lambda>_. ret ())"

definition set_credentials :: "'w sys \<Rightarrow> git_wrap \<Rightarrow> string \<Rightarrow> string \<Rightarrow> ('w, unit) action" where
  "set_credentials sys g username email =
     then_do (log Debug ''setting up credentials'') (\<lambda>_.
     then_do (if username \<noteq> [] then set_config sys g ''user.name'' username else ret ()) (\<lambda>_.
     if email \<noteq> [] then set_config sys g ''user.email'' email else ret ()))"

definition rename_remote :: "'w sys \<Rightarrow> git_wrap \<Rightarrow> string \<Rightarrow> string \<Rightarrow> ('w, unit) action" where
  "rename_remote sys g from to =
     then_do (run sys g (details_rename_remote (sys_conf sys) (gw_root g) from to))
       (\<lambda>_. ret ())"

definition set_remote_push :: "'w sys \<Rightarrow> git_wrap \<Rightarrow> string \<Rightarrow> string \<Rightarrow> ('w, unit) action" where
  "set_remote_push sys g remote u =
     then_do (run sys g (details_set_remote_push (sys_conf sys) (gw_root g) remote u))
       (\<lambda>_. ret ())"

definition set_assume_unchanged :: "'w sys \<Rightarrow> git_wrap \<Rightarrow> path \<Rightarrow> bool \<Rightarrow> ('w, unit) action" where
  "set_assume_unchanged sys g file on =
     then_do (run sys g (details_set_assume_unchanged (sys_conf sys) (gw_root g) file on))
       (\<lambda>_. ret ())"

definition is_tracked :: "'w sys \<Rightarrow> git_wrap \<Rightarrow> path \<Rightarrow> ('w, bool) action" where
  "is_tracked sys g file =
     then_do (run sys g (details_is_tracked (sys_conf sys) (gw_root g) file))
       (\<lambda>(code, out). ret (code = 0))"

definition has_remote :: "'w sys \<Rightarrow> git_wrap \<Rightarrow> string \<Rightarrow> ('w, bool) action" where
  "has_remote sys g name =
     then_do (run sys g (details_has_remote (sys_conf sys) (gw_root g) name))
       (\<lambda>(code, out). ret (code = 0))"

definition git_file :: "'w sys \<Rightarrow> git_wrap \<Rightarrow> ('w, string) action" where
  "git_file sys g =
     then_do (run sys g (details_remote_url (sys_conf sys) (gw_root g))) (\<lambda>(code, out).
       case find_last_of out (CHR ''/'') of
         None \<Rightarrow>
           then_do (log Error (''bad get-url output '' @ [CHR 0x27] @ out @ [CHR 0x27]))
             (\<lambda>_. throw_bailed)
       | Some last_slash \<Rightarrow>
           (let s = trim_copy (substr out (last_slash + 1)) in
            if s = [] then
              then_do (log Error (''bad get-url output '' @ [CHR 0x27] @ out @ [CHR 0x27]))
                (\<lambda>_. throw_bailed)
            else ret s))"

text \<open>
  In \<^verbatim>\<open>opt_git_file.value_or(git_file())\<close> the argument is an ordinary function argument:
  \<^verbatim>\<open>git_file()\<close> is called first, whatever \<^verbatim>\<open>opt_git_file\<close> holds, and \<^verbatim>\<open>value_or\<close> then
  picks between its result and the value held.
\<close>

definition add_remote ::
  "'w sys \<Rightarrow> git_wrap \<Rightarrow> string \<Rightarrow> string \<Rightarrow> string \<Rightarrow> bool \<Rightarrow>
   git_url_pattern_format_string option \<Rightarrow> string option \<Rightarrow> ('w, unit) action" where
  "add_remote sys g remote_name username key push_default url_pattern opt_git_file =
     then_do (git_file sys g) (\<lambda>default_value.
     let gf = (case opt_git_file of Some v \<Rightarrow> v | None \<Rightarrow> default_value) in
     then_do (has_remote sys g remote_name) (\<lambda>exists.
       if \<not> exists then
         then_do (run sys g (details_add_remote (sys_conf sys) (gw_root g) remote_name
                    (make_url username gf url_pattern))) (\<lambda>_.
         then_do (if push_default then set_config sys g ''remote.pushdefault'' remote_name
                  else ret ()) (\<lambda>_.
         if key \<noteq> [] then
           set_config sys g (''remote.'' @ remote_name @ ''.puttykeyfile'') key
         else ret ()))
       else ret ()))"

definition set_origin_and_upstream_remotes ::
  "'w sys \<Rightarrow> git_wrap \<Rightarrow> string \<Rightarrow> string \<Rightarrow> bool \<Rightarrow> bool \<Rightarrow> ('w, unit) action" where
  "set_origin_and_upstream_remotes sys g org key no_push_upstream push_default_origin =
     then_do (has_remote sys g ''upstream'') (\<lambda>exists.
       if exists then log Trace ''upstream remote already exists''
       else
         then_do (git_file sys g) (\<lambda>gf.
         then_do (rename_remote sys g ''origin'' ''upstream'') (\<lambda>_.
         then_do (if no_push_upstream then set_remote_push sys g ''upstream'' ''nopushurl''
                  else ret ()) (\<lambda>_.
         add_remote sys g ''origin'' org key push_default_origin None (Some gf)))))"

text \<open>
  \<^verbatim>\<open>details::for_each_ts\<close>: the loop over the directory entries, with its two
  \<^verbatim>\<open>continue\<close>s. The entries are those the iterator finds when the loop starts.
\<close>

fun for_each_entry :: "(path \<Rightarrow> ('w, unit) action) \<Rightarrow> (path \<times> bool) list \<Rightarrow> ('w, unit) action" where
  "for_each_entry f [] = ret ()"
| "for_each_entry f ((p, is_regular_file) # es) =
     (if \<not> is_regular_file then for_each_entry f es
      else if \<not> ends_with (extension p) ''.ts'' then for_each_entry f es
      else then_do (f p) (\<lambda>_. for_each_entry f es))"

definition for_each_ts :: "'w sys \<Rightarrow> path \<Rightarrow> (path \<Rightarrow> ('w, unit) action) \<Rightarrow> ('w, unit) action" where
  "for_each_ts sys root f s =
     for_each_entry f (sys_recursive_directory_iterator sys root (world s)) s"

definition ignore_ts :: "'w sys \<Rightarrow> git_wrap \<Rightarrow> bool \<Rightarrow> ('w, unit) action" where
  "ignore_ts sys g b =
     for_each_ts sys (gw_root g) (\<lambda>p.
       let rp = sys_relative sys p (gw_root g) in
       then_do (is_tracked sys g rp) (\<lambda>tracked.
         if tracked then
           then_do (log Trace (''  . '' @ rp)) (\<lambda>_. set_assume_unchanged sys g rp b)
         else log Trace (''  . '' @ rp @ '' (skipping, not tracked)'')))"

definition revert_ts :: "'w sys \<Rightarrow> git_wrap \<Rightarrow> ('w, unit) action" where
  "revert_ts sys g =
     for_each_ts sys (gw_root g) (\<lambda>p.
       let rp = sys_relative sys p (gw_root g) in
       then_do (is_tracked sys g rp) (\<lambda>tracked.
         if tracked then
           then_do (run sys g (details_revert (sys_conf sys) (gw_root g) p)) (\<lambda>_. ret ())
         else
           log Debug (''won't try to revert ts file '' @ [CHR 0x27] @ rp @ [CHR 0x27]
                      @ '', not tracked'')))"

definition init_repo :: "'w sys \<Rightarrow> git_wrap \<Rightarrow> ('w, unit) action" where
  "init_repo sys g =
     then_do (run sys g (details_init (sys_conf sys) (gw_root g))) (\<lambda>_. ret ())"

definition git_wrap_apply :: "'w sys \<Rightarrow> git_wrap \<Rightarrow> string \<Rightarrow> ('w, unit) action" where
  "git_wrap_apply sys g diff =
     then_do (run sys g (details_apply (sys_conf sys) (gw_root g) diff)) (\<lambda>_. ret ())"

definition fetch :: "'w sys \<Rightarrow> git_wrap \<Rightarrow> string \<Rightarrow> string \<Rightarrow> ('w, unit) action" where
  "fetch sys g remote branch =
     then_do (run sys g (details_fetch (sys_conf sys) (gw_root g) remote branch))
       (\<lambda>_. ret ())"

definition checkout :: "'w sys \<Rightarrow> git_wrap \<Rightarrow> string \<Rightarrow> ('w, unit) action" where
  "checkout sys g what =
     then_do (run sys g (details_checkout (sys_conf sys) (gw_root g) what)) (\<lambda>_. ret ())"

definition current_branch :: "'w sys \<Rightarrow> git_wrap \<Rightarrow> ('w, string) action" where
  "current_branch sys g =
     then_do (run sys g (details_current_branch (sys_conf sys) (gw_root g)))
       (\<lambda>(code, out). ret (trim_copy out))"

definition add_submodule ::
  "'w sys \<Rightarrow> git_wrap \<Rightarrow> string \<Rightarrow> string \<Rightarrow> url \<Rightarrow> ('w, unit) action" where
  "add_submodule sys g branch submodule u =
     then_do (run sys g (details_add_submodule (sys_conf sys) (gw_root g) branch submodule u))
       (\<lambda>_. ret ())"

definition is_git_repo :: "'w sys \<Rightarrow> git_wrap \<Rightarrow> ('w, bool) action" where
  "is_git_repo sys g =
     then_do (run sys g (details_is_repo (sys_conf sys) (gw_root g)))
       (\<lambda>(code, out). ret (code = 0))"

definition remote_branch_exists :: "'w sys \<Rightarrow> url \<Rightarrow> string \<Rightarrow> ('w, bool) action" where
  "remote_branch_exists sys u name =
     then_do (run_and_join sys (details_remote_branch_exists (sys_conf sys) u name))
       (\<lambda>(code, out). ret (code = 0))"

definition has_uncommitted_changes :: "'w sys \<Rightarrow> git_wrap \<Rightarrow> ('w, bool) action" where
  "has_uncommitted_changes sys g =
     then_do (run sys g (details_has_uncommitted_changes (sys_conf sys) (gw_root g)))
       (\<lambda>(code, out). ret (out \<noteq> []))"

definition has_stashed_changes :: "'w sys \<Rightarrow> git_wrap \<Rightarrow> ('w, bool) action" where
  "has_stashed_changes sys g =
     then_do (run sys g (details_has_stashed_changes (sys_conf sys) (gw_root g)))
       (\<lambda>(code, out). ret (code = 0))"

definition delete_directory :: "'w sys \<Rightarrow> path \<Rightarrow> ('w, unit) action" where
  "delete_directory sys dir =
     (let g = \<lparr>gw_root = dir, gw_runner = None\<rparr> in
      then_do (is_git_repo sys g) (\<lambda>is_repo.
      then_do
        (if is_repo then
           then_do
             (if \<not> conf_ignore_uncommitted (sys_conf sys) then
                then_do (has_uncommitted_changes sys g) (\<lambda>uncommitted.
                then_do
                  (if uncommitted then
                     bail_out (''will not delete '' @ dir @ '', has uncommitted changes; ''
                               @ ''see --ignore-uncommitted-changes'')
                   else ret ()) (\<lambda>_.
                then_do (has_stashed_changes sys g) (\<lambda>stashed.
                  if stashed then
                    bail_out (''will not delete '' @ dir @ '', has stashed changes; ''
                              @ ''see --ignore-uncommitted-changes'')
                  else ret ())))
              else ret ()) (\<lambda>_.
           log Trace (''deleting directory controlled by git '' @ dir))
         else ret ()) (\<lambda>_.
      op_delete_directory sys dir)))"

section \<open>The git tool (class git)\<close>

datatype ops = ops_clone | ops_pull | ops_clone_or_pull | ops_unknown string

record git =
  git_op :: ops
  git_url :: url
  git_root :: path
  git_branch :: string
  git_ignore_ts :: bool
  git_revert_ts :: bool
  git_creds_username :: string
  git_creds_email :: string
  git_shallow :: bool
  git_remote_org :: string
  git_remote_key :: string
  git_no_push_upstream :: bool
  git_push_default_origin :: bool

definition new_git :: "ops \<Rightarrow> git" where
  "new_git o' =
     \<lparr>git_op = o', git_url = [], git_root = [], git_branch = [], git_ignore_ts = False,
      git_revert_ts = False, git_creds_username = [], git_creds_email = [],
      git_shallow = False, git_remote_org = [], git_remote_key = [],
      git_no_push_upstream = False, git_push_default_origin = False\<rparr>"

definition do_clone :: "'w sys \<Rightarrow> git \<Rightarrow> ('w, bool) action" where
  "do_clone sys t s =
     (let dot_git = path_append (git_root t) ''.git'' in
      if sys_exists sys dot_git (world s) then
        then_do (log Trace (''not cloning, '' @ dot_git @ '' exists'')) (\<lambda>_. ret False) s
      else
        (let g = \<lparr>gw_root = git_root t, gw_runner = Some ''git''\<rparr> in
         then_do (clone sys g (git_url t) (git_branch t) (git_shallow t)) (\<lambda>_.
         then_do (if git_creds_username t \<noteq> [] \<or> git_creds_email t \<noteq> [] then
                    set_credentials sys g (git_creds_username t) (git_creds_email t)
                  else ret ()) (\<lambda>_.
         then_do (if git_remote_org t \<noteq> [] then
                    set_origin_and_upstream_remotes sys g (git_remote_org t)
                      (git_remote_key t) (git_no_push_upstream t)
                      (git_push_default_origin t)
                  else ret ()) (\<lambda>_.
         then_do (if git_ignore_ts t then ignore_ts sys g True else ret ()) (\<lambda>_.
         ret True)))) s))"

definition do_pull :: "'w sys \<Rightarrow> git \<Rightarrow> ('w, unit) action" where
  "do_pull sys t =
     (let g = \<lparr>gw_root = git_root t, gw_runner = Some ''git''\<rparr> in
      then_do (if git_revert_ts t then revert_ts sys g else ret ()) (\<lambda>_.
      pull sys g (git_url t) (git_branch t)))"

definition do_run :: "'w sys \<Rightarrow> git \<Rightarrow> ('w, unit) action" where
  "do_run sys t =
     then_do (if git_url t = [] \<or> git_root t = [] then bail_out ''git missing parameters''
              else ret ()) (\<lambda>_.
     case git_op t of
       ops_clone \<Rightarrow> then_do (do_clone sys t) (\<lambda>_. ret ())
     | ops_pull \<Rightarrow> do_pull sys t
     | ops_clone_or_pull \<Rightarrow>
         then_do (do_clone sys t) (\<lambda>cloned. if \<not> cloned then do_pull sys t else ret ())
     | ops_unknown shown \<Rightarrow> bail_out (''git unknown op '' @ shown))"

section \<open>The submodule tool (class git_submodule)\<close>

record git_submodule =
  gs_url :: url
  gs_root :: path
  gs_branch :: string
  gs_submodule :: string

definition git_submodule_do_run :: "'w sys \<Rightarrow> git_submodule \<Rightarrow> ('w, unit) action" where
  "git_submodule_do_run sys t =
     add_submodule sys \<lparr>gw_root = gs_root t, gw_runner = Some ''git submodule''\<rparr>
       (gs_branch t) (gs_submodule t) (gs_url t)"

section \<open>The submodule adder (class git_submodule_adder)\<close>

text \<open>
  The adder is shared by the threads that call \<^verbatim>\<open>queue()\<close>, the thread that calls
  \<^verbatim>\<open>stop()\<close> and joins, and the worker thread running \<^verbatim>\<open>thread_fun()\<close>. Every access to
  \<^verbatim>\<open>queue_\<close> is under \<^verbatim>\<open>queue_mutex_\<close>, every access to \<^verbatim>\<open>sleeper_.ready\<close> is under
  \<^verbatim>\<open>sleeper_.m\<close>, and \<^verbatim>\<open>quit_\<close> is atomic, so an execution is an interleaving of the steps
  below: each step is one access to shared data (or one critical section), followed by
  the thread's private work up to its next access. A schedule names the thread that takes
  each step; a thread that cannot move (it waits for a mutex, for the condition, or for
  the join, or it has ended) has no step.

  A request in the queue carries the index of the producer that queued it. The code never
  looks at the index; it is there to state the order per producer.
\<close>

type_synonym request = "nat \<times> git_submodule"

text \<open>Where the worker is in \<^verbatim>\<open>thread_fun()\<close> and \<^verbatim>\<open>process()\<close>.\<close>

datatype worker_pc =
    at_while                        \<comment> \<open>about to test \<^verbatim>\<open>while (!quit_)\<close>\<close>
  | at_wait                         \<comment> \<open>in \<^verbatim>\<open>sleeper_.cv.wait\<close>\<close>
  | at_quit_check                   \<comment> \<open>about to test \<^verbatim>\<open>if (quit_) break\<close> after the wait\<close>
  | at_swap                         \<comment> \<open>in \<^verbatim>\<open>process()\<close>, about to swap the queue out\<close>
  | at_for "request list"           \<comment> \<open>at the head of the loop over \<^verbatim>\<open>v\<close>, these left\<close>
  | at_break_check "request list"   \<comment> \<open>after \<^verbatim>\<open>g.run\<close>, about to test \<^verbatim>\<open>if (quit_) break\<close>\<close>
  | exited

text \<open>Where a producer is in \<^verbatim>\<open>queue()\<close>.\<close>

datatype producer_pc =
    idle      \<comment> \<open>outside \<^verbatim>\<open>queue()\<close>\<close>
  | pushed    \<comment> \<open>holds \<^verbatim>\<open>queue_mutex_\<close>, has appended its request\<close>
  | woke      \<comment> \<open>has set \<^verbatim>\<open>ready\<close> and notified, still holds \<^verbatim>\<open>queue_mutex_\<close>\<close>

text \<open>Where the stopping thread is in the destructor (\<^verbatim>\<open>stop()\<close>, then \<^verbatim>\<open>join()\<close>).\<close>

datatype stopper_pc = before_stop | quit_set | joining | joined

record 'w adder =
  sa_queue :: "request list"
  sa_queue_mutex_held :: bool
  sa_ready :: bool
  sa_quit :: bool
  sa_worker :: worker_pc
  sa_producers :: "(producer_pc \<times> git_submodule list) list"
  sa_stopper :: stopper_pc
  sa_effects :: "'w state"
  sa_attempted :: "request list"
  sa_queued :: "request list"

text \<open>
  \<open>sa_producers\<close> holds, for each producer, where it is and the requests it has yet to
  queue. \<open>sa_effects\<close> is what the worker's git processes have done so far. Two fields are
  records for the properties only: \<open>sa_queued\<close>, every request in the order of the
  \<^verbatim>\<open>emplace_back\<close> calls, and \<open>sa_attempted\<close>, every request \<^verbatim>\<open>g.run\<close> was called on, in order.
\<close>

datatype thread = Producer nat | Stopper | Worker

text \<open>
  A number in decimal, as \<^verbatim>\<open>{}\<close> prints it. The first argument of \<open>digits\<close> bounds the
  number of digits; \<open>Suc n\<close> is more than \<open>n\<close> has.
\<close>

primrec digits :: "nat \<Rightarrow> nat \<Rightarrow> string" where
  "digits 0 n = []"
| "digits (Suc k) n =
     (if n < 10 then [char_of (48 + n)] else digits k (n div 10) @ [char_of (48 + n mod 10)])"

definition show_nat :: "nat \<Rightarrow> string" where
  "show_nat n = digits (Suc n) n"

text \<open>
  \<^verbatim>\<open>queue(g)\<close>: lock \<^verbatim>\<open>queue_mutex_\<close> and append; \<^verbatim>\<open>wakeup()\<close>; unlock.
\<close>

definition producer_step :: "nat \<Rightarrow> 'w adder \<Rightarrow> 'w adder option" where
  "producer_step i a =
     (if length (sa_producers a) \<le> i then None
      else case sa_producers a ! i of
        (idle, []) \<Rightarrow> None
      | (idle, g # gs) \<Rightarrow>
          if sa_queue_mutex_held a then None
          else Some (a\<lparr>sa_queue_mutex_held := True,
                       sa_queue := sa_queue a @ [(i, g)],
                       sa_queued := sa_queued a @ [(i, g)],
                       sa_producers := (sa_producers a)[i := (pushed, gs)]\<rparr>)
      | (pushed, gs) \<Rightarrow>
          Some (a\<lparr>sa_ready := True, sa_producers := (sa_producers a)[i := (woke, gs)]\<rparr>)
      | (woke, gs) \<Rightarrow>
          Some (a\<lparr>sa_queue_mutex_held := False,
                  sa_producers := (sa_producers a)[i := (idle, gs)]\<rparr>))"

text \<open>
  The destructor, called once every producer has returned from its last \<^verbatim>\<open>queue()\<close>:
  \<^verbatim>\<open>stop()\<close> sets \<^verbatim>\<open>quit_\<close>, then wakes the worker; \<^verbatim>\<open>join()\<close> returns once the worker has
  ended.
\<close>

definition stopper_step :: "'w adder \<Rightarrow> 'w adder option" where
  "stopper_step a =
     (case sa_stopper a of
        before_stop \<Rightarrow>
          if list_all (\<lambda>p. p = (idle, [])) (sa_producers a) then
            Some (a\<lparr>sa_quit := True, sa_stopper := quit_set\<rparr>)
          else None
      | quit_set \<Rightarrow> Some (a\<lparr>sa_ready := True, sa_stopper := joining\<rparr>)
      | joining \<Rightarrow> if sa_worker a = exited then Some (a\<lparr>sa_stopper := joined\<rparr>) else None
      | joined \<Rightarrow> None)"

text \<open>
  \<^verbatim>\<open>thread_fun()\<close> with \<^verbatim>\<open>process()\<close> inlined. \<^verbatim>\<open>g.run(cx_)\<close> is the tool's \<^verbatim>\<open>do_run\<close>; if it
  bails out, the exception leaves both loops and is caught at the end of \<^verbatim>\<open>thread_fun()\<close>.
\<close>

definition worker_step :: "'w sys \<Rightarrow> 'w adder \<Rightarrow> 'w adder option" where
  "worker_step sys a =
     (case sa_worker a of
        at_while \<Rightarrow> Some (a\<lparr>sa_worker := (if sa_quit a then exited else at_wait)\<rparr>)
      | at_wait \<Rightarrow>
          if sa_ready a then Some (a\<lparr>sa_ready := False, sa_worker := at_quit_check\<rparr>)
          else None
      | at_quit_check \<Rightarrow> Some (a\<lparr>sa_worker := (if sa_quit a then exited else at_swap)\<rparr>)
      | at_swap \<Rightarrow>
          if sa_queue_mutex_held a then None
          else
            (case log Trace (''git_submodule_adder: woke up, ''
                             @ show_nat (length (sa_queue a)) @ '' to process'')
                    (sa_effects a) of
               (r, st') \<Rightarrow>
                 Some (a\<lparr>sa_queue := [], sa_effects := st', sa_worker := at_for (sa_queue a)\<rparr>))
      | at_for [] \<Rightarrow> Some (a\<lparr>sa_worker := at_while\<rparr>)
      | at_for ((i, g) # v) \<Rightarrow>
          (case then_do (log Trace (''git_submodule_adder: running '' @ gs_submodule g))
                  (\<lambda>_. git_submodule_do_run sys g) (sa_effects a) of
             (Inl e, st') \<Rightarrow>
               Some (a\<lparr>sa_effects := st', sa_attempted := sa_attempted a @ [(i, g)],
                       sa_worker := exited\<rparr>)
           | (Inr u, st') \<Rightarrow>
               Some (a\<lparr>sa_effects := st', sa_attempted := sa_attempted a @ [(i, g)],
                       sa_worker := at_break_check v\<rparr>))
      | at_break_check v \<Rightarrow> Some (a\<lparr>sa_worker := (if sa_quit a then at_while else at_for v)\<rparr>)
      | exited \<Rightarrow> None)"

fun step :: "'w sys \<Rightarrow> thread \<Rightarrow> 'w adder \<Rightarrow> 'w adder option" where
  "step sys (Producer i) a = producer_step i a"
| "step sys Stopper a = stopper_step a"
| "step sys Worker a = worker_step sys a"



section \<open>Reading the process primitive's answer\<close>

definition exit_code :: "'w sys \<Rightarrow> process \<Rightarrow> 'w \<Rightarrow> int" where
  "exit_code sys p w = fst (fst (sys_exec sys p w))"

definition stdout_of :: "'w sys \<Rightarrow> process \<Rightarrow> 'w \<Rightarrow> string" where
  "stdout_of sys p w = snd (fst (sys_exec sys p w))"

definition world_after :: "'w sys \<Rightarrow> process \<Rightarrow> 'w \<Rightarrow> 'w" where
  "world_after sys p w = snd (sys_exec sys p w)"

text \<open>The events an operation added to the trace it started from.\<close>

definition added :: "'w state \<Rightarrow> 'w state \<Rightarrow> event list" where
  "added s s' = drop (length (trace s)) (trace s')"

text \<open>An invocation is non-interactive when its environment carries both overrides.\<close>

definition non_interactive :: "process \<Rightarrow> bool" where
  "non_interactive p =
     (env_get ''GCM_INTERACTIVE'' (proc_env p) = Some ''never'' \<and>
      env_get ''GIT_TERMINAL_PROMPT'' (proc_env p) = Some ''0'')"

section \<open>A small git, to run the model on\<close>

text \<open>
  One repository, as far as the commands above read or change it: whether the directory
  is a work tree, its remotes, what \<^verbatim>\<open>git status\<close> prints, whether there is a stash, the
  tracked files and those flagged assume-unchanged, the entries below the root, and
  whether the directory is still there. \<open>git_sim\<close> answers each command the way git does
  on such a repository, with git's exit codes; it is used to evaluate the model at
  concrete repositories.
\<close>

record repo =
  repo_work_tree :: bool
  repo_remotes :: "(string \<times> string) list"
  repo_status :: string
  repo_stashed :: bool
  repo_tracked :: "path list"
  repo_assume_unchanged :: "path list"
  repo_entries :: "(path \<times> bool) list"
  repo_present :: bool

fun arg_words :: "arg \<Rightarrow> string list" where
  "arg_words (Arg v f) = [v]"
| "arg_words (ArgKV k v f) = [k, v]"

definition command_line :: "process \<Rightarrow> string list" where
  "command_line p = concat (map arg_words (proc_args p))"

definition remote_of_key :: "(string \<times> string) list \<Rightarrow> string \<Rightarrow> string option" where
  "remote_of_key remotes key =
     map_option snd (find (\<lambda>(n, u). key = ''remote.'' @ n @ ''.url'') remotes)"

definition git_sim :: "process \<Rightarrow> repo \<Rightarrow> (int \<times> string) \<times> repo" where
  "git_sim p w =
     (let ws = command_line p in
      if take 1 ws = [''clone''] then
        (if repo_work_tree w then ((128, []), w)
         else ((0, []), w\<lparr>repo_work_tree := True, repo_present := True,
                 repo_remotes := [(''origin'', ws ! (length ws - 2))]\<rparr>))
      else if \<not> repo_work_tree w then ((128, []), w)
      else if ws = [''rev-parse'', ''--is-inside-work-tree''] then ((0, ''true''), w)
      else if ws = [''status'', ''-s'', ''--porcelain''] then ((0, repo_status w), w)
      else if ws = [''stash show''] then ((if repo_stashed w then 0 else 1, []), w)
      else if take 2 ws = [''remote'', ''get-url''] \<and> length ws = 3 then
        (case map_of (repo_remotes w) (ws ! 2) of
           Some u \<Rightarrow> ((0, u @ [CHR 0x0A]), w)
         | None \<Rightarrow> ((2, []), w))
      else if take 2 ws = [''remote'', ''rename''] \<and> length ws = 4 then
        (case map_of (repo_remotes w) (ws ! 2) of
           Some u \<Rightarrow>
             (if map_of (repo_remotes w) (ws ! 3) = None then
                ((0, []), w\<lparr>repo_remotes :=
                   map (\<lambda>(n, v). if n = ws ! 2 then (ws ! 3, v) else (n, v)) (repo_remotes w)\<rparr>)
              else ((128, []), w))
         | None \<Rightarrow> ((2, []), w))
      else if take 2 ws = [''remote'', ''add''] \<and> length ws = 4 then
        (if map_of (repo_remotes w) (ws ! 2) = None then
           ((0, []), w\<lparr>repo_remotes := repo_remotes w @ [(ws ! 2, ws ! 3)]\<rparr>)
         else ((3, []), w))
      else if take 3 ws = [''remote'', ''set-url'', ''--push''] \<and> length ws = 5 then
        ((if map_of (repo_remotes w) (ws ! 3) = None then 2 else 0, []), w)
      else if take 1 ws = [''config''] \<and> length ws = 2 then
        (case remote_of_key (repo_remotes w) (ws ! 1) of
           Some u \<Rightarrow> ((0, u @ [CHR 0x0A]), w)
         | None \<Rightarrow> ((1, []), w))
      else if take 1 ws = [''config''] \<and> length ws = 3 then ((0, []), w)
      else if take 2 ws = [''ls-files'', ''--error-unmatch''] \<and> length ws = 3 then
        (if ws ! 2 \<in> set (repo_tracked w) then ((0, ws ! 2 @ [CHR 0x0A]), w)
         else ((1, []), w))
      else if take 1 ws = [''update-index''] \<and> length ws = 3 then
        (if ws ! 2 \<in> set (repo_tracked w) then
           ((0, []),
            w\<lparr>repo_assume_unchanged :=
                (if ws ! 1 = ''--assume-unchanged'' then
                   List.insert (ws ! 2) (repo_assume_unchanged w)
                 else removeAll (ws ! 2) (repo_assume_unchanged w))\<rparr>)
         else ((128, []), w))
      else if take 1 ws = [''checkout''] \<and> length ws = 2 then ((0, []), w)
      else if take 1 ws = [''pull''] then ((0, []), w)
      else if take 5 ws = [''-c'', ''core.autocrlf=false'', ''submodule'', ''--quiet'', ''add'']
        then ((0, []), w)
      else ((1, []), w))"

text \<open>The collaborators over that repository at \<open>root\<close>.\<close>

definition sim :: "conf \<Rightarrow> path \<Rightarrow> repo sys" where
  "sim c root =
     \<lparr>sys_conf = c,
      sys_exec = git_sim,
      sys_exists = (\<lambda>p w. p = path_append root ''.git'' \<and> repo_work_tree w),
      sys_recursive_directory_iterator = (\<lambda>d w. if d = root then repo_entries w else []),
      sys_relative = (\<lambda>p base. drop (Suc (length base)) p),
      sys_delete_directory =
        (\<lambda>d w. (Inr (), if d = root then w\<lparr>repo_present := False, repo_work_tree := False\<rparr>
                       else w))\<rparr>"

definition sim_conf :: conf where
  "sim_conf = \<lparr>conf_tool_git = ''git'', conf_ignore_uncommitted = False, conf_this_env = []\<rparr>"

text \<open>
  A clean clone of \<^verbatim>\<open>git@github.com:org/modorganizer.git\<close> at \<^verbatim>\<open>/r\<close>, with the tracked
  translation file \<^verbatim>\<open>src/a.ts\<close> and the untracked one \<^verbatim>\<open>src/b.ts\<close>.
\<close>

definition sim_repo :: repo where
  "sim_repo =
     \<lparr>repo_work_tree = True,
      repo_remotes = [(''origin'', ''git@github.com:org/modorganizer.git'')],
      repo_status = [], repo_stashed = False,
      repo_tracked = [''src/a.ts''], repo_assume_unchanged = [],
      repo_entries = [(''/r/src'', False), (''/r/src/a.ts'', True), (''/r/src/b.ts'', True),
                      (''/r/src/c.cpp'', True)],
      repo_present = True\<rparr>"

text \<open>Repositories, wrappers and tools the properties below are evaluated at.\<close>

definition sim_start :: "repo state" where
  "sim_start = \<lparr>world = sim_repo, trace = []\<rparr>"

definition sim_wrap :: git_wrap where
  "sim_wrap = \<lparr>gw_root = ''/r'', gw_runner = None\<rparr>"

text \<open>The directory \<^verbatim>\<open>/r\<close> before anything was cloned into it.\<close>

definition sim_empty :: "repo state" where
  "sim_empty = \<lparr>world = sim_repo\<lparr>repo_work_tree := False\<rparr>, trace = []\<rparr>"

text \<open>The clone with one modified file.\<close>

definition sim_dirty :: "repo state" where
  "sim_dirty = \<lparr>world = sim_repo\<lparr>repo_status := '' M src/main.cpp''\<rparr>, trace = []\<rparr>"

text \<open>The clone once \<^verbatim>\<open>origin\<close> has been renamed to \<^verbatim>\<open>upstream\<close>.\<close>

definition sim_renamed :: "repo state" where
  "sim_renamed =
     \<lparr>world = sim_repo\<lparr>repo_remotes :=
                [(''upstream'', ''git@github.com:org/modorganizer.git'')]\<rparr>,
      trace = []\<rparr>"

definition sim_tool :: "ops \<Rightarrow> git" where
  "sim_tool o' =
     (new_git o')\<lparr>git_url := ''https://github.com/org/modorganizer.git'', git_root := ''/r''\<rparr>"



text \<open>
  The clone once \<^verbatim>\<open>ignore_ts(true)\<close> has run on it: \<^verbatim>\<open>src/a.ts\<close> is flagged
  assume-unchanged, and the trace holds what the operation did.
\<close>

definition sim_flagged :: "repo state" where
  "sim_flagged =
     \<lparr>world = sim_repo\<lparr>repo_assume_unchanged := [''src/a.ts'']\<rparr>,
      trace = [Ran None (details_is_tracked sim_conf ''/r'' ''src/a.ts''),
               Logged Trace ''  . src/a.ts'',
               Ran None (details_set_assume_unchanged sim_conf ''/r'' ''src/a.ts'' True),
               Ran None (details_is_tracked sim_conf ''/r'' ''src/b.ts''),
               Logged Trace ''  . src/b.ts (skipping, not tracked)'']\<rparr>"

section \<open>Vocabulary for the properties of the translation files\<close>

text \<open>
  The world after the events of a trace, replayed from a world \<open>w\<close>: each process and each
  deletion changes the world the way the collaborators say, a log line changes nothing.
\<close>

fun world_at :: "'w sys \<Rightarrow> event list \<Rightarrow> 'w \<Rightarrow> 'w" where
  "world_at sys [] w = w"
| "world_at sys (Ran r p # es) w = world_at sys es (world_after sys p w)"
| "world_at sys (Logged lv m # es) w = world_at sys es w"
| "world_at sys (Deleted d # es) w = world_at sys es (snd (sys_delete_directory sys d w))"

text \<open>
  The files \<^verbatim>\<open>for_each_ts\<close> calls its function on, among the entries the directory iterator
  gives: the regular files whose extension ends with \<^verbatim>\<open>.ts\<close>.
\<close>

definition ts_of :: "(path \<times> bool) list \<Rightarrow> path \<Rightarrow> bool" where
  "ts_of es q = ((q, True) \<in> set es \<and> ends_with (extension q) ''.ts'')"

text \<open>
  What an operation over the translation files may add to the trace, given the probe it
  runs on a file, the command it runs on a tracked file (\<open>act\<close>) and what it logs between
  the two (\<open>mid\<close>). An event \<open>e\<close> that comes after the events \<open>pre\<close> is allowed if it is the
  probe of a translation file; or the command on a translation file, directly after that
  file's probe and \<open>mid\<close>, the probe having exited with 0 in the world it ran in; or a log
  line at level \<open>lv\<close>. A trace is guarded if each of its events is allowed where it stands.
\<close>

definition allowed ::
  "'w sys \<Rightarrow> (path \<Rightarrow> bool) \<Rightarrow> (path \<Rightarrow> process) \<Rightarrow> (path \<Rightarrow> process) \<Rightarrow>
   (path \<Rightarrow> event list) \<Rightarrow> level \<Rightarrow> 'w \<Rightarrow> event list \<Rightarrow> event \<Rightarrow> bool" where
  "allowed sys ts probe act mid lv w pre e =
     (case e of
        Ran r p \<Rightarrow>
          \<exists>q. ts q
            \<and> (p = probe q
               \<or> p = act q
                 \<and> (\<exists>pre'. pre = pre' @ Ran r (probe q) # mid q
                       \<and> exit_code sys (probe q) (world_at sys pre' w) = 0))
      | Logged l m \<Rightarrow> l = lv
      | Deleted d \<Rightarrow> False)"

definition guarded ::
  "'w sys \<Rightarrow> (path \<Rightarrow> bool) \<Rightarrow> (path \<Rightarrow> process) \<Rightarrow> (path \<Rightarrow> process) \<Rightarrow>
   (path \<Rightarrow> event list) \<Rightarrow> level \<Rightarrow> 'w \<Rightarrow> event list \<Rightarrow> bool" where
  "guarded sys ts probe act mid lv w evs =
     (\<forall>pre e post. evs = pre @ e # post \<longrightarrow> allowed sys ts probe act mid lv w pre e)"

text \<open>
  Every translation file has been visited: its probe was run, and is followed by \<open>mid\<close>
  and the command if it exited with 0 in the world it ran in, and by \<open>skip\<close> otherwise.
\<close>

definition all_visited ::
  "'w sys \<Rightarrow> string option \<Rightarrow> (path \<Rightarrow> bool) \<Rightarrow> (path \<Rightarrow> process) \<Rightarrow> (path \<Rightarrow> process) \<Rightarrow>
   (path \<Rightarrow> event list) \<Rightarrow> (path \<Rightarrow> event list) \<Rightarrow> 'w \<Rightarrow> event list \<Rightarrow> bool" where
  "all_visited sys R ts probe act mid skip w evs =
     (\<forall>q. ts q \<longrightarrow>
        (\<exists>pre post. evs = pre @ Ran R (probe q) # post
           \<and> (if exit_code sys (probe q) (world_at sys pre w) = 0
              then \<exists>post'. post = mid q @ Ran R (act q) # post'
              else \<exists>post'. post = skip q @ post')))"

text \<open>The trace ends with the command on a translation file, and the command failed.\<close>

definition failed ::
  "'w sys \<Rightarrow> string option \<Rightarrow> (path \<Rightarrow> bool) \<Rightarrow> (path \<Rightarrow> process) \<Rightarrow> 'w \<Rightarrow> event list \<Rightarrow> bool" where
  "failed sys R ts act w evs =
     (\<exists>pre q. ts q \<and> evs = pre @ [Ran R (act q)]
        \<and> exit_code sys (act q) (world_at sys pre w) \<noteq> 0)"

section \<open>Vocabulary for the submodule adder's properties\<close>






section \<open>Properties of the command layer\<close>

lemmas builder_defs = binary_def env_def arg_def arg_f_def arg_kv_def arg_kv_f_def cwd_def
  stdin_string_def flags_def stdout_flags_def stdout_level_def stderr_level_def
  stderr_filter_def

lemma env_get_set_same: "env_get k (env_set k v e) = Some v"
  by (induction e) (auto simp: env_get_def)

lemma env_get_set_other: "k' \<noteq> k \<Longrightarrow> env_get k' (env_set k v e) = env_get k' e"
  by (induction e) (auto simp: env_get_def)

lemma make_process_non_interactive: "non_interactive (make_process c)"
  by (simp add: non_interactive_def make_process_def chain_def builder_defs
      env_get_set_same env_get_set_other)

lemma builder_keeps_env:
  "proc_env (arg v p) = proc_env p"
  "proc_env (arg_f v f p) = proc_env p"
  "proc_env (arg_kv k v p) = proc_env p"
  "proc_env (arg_kv_f k v f p) = proc_env p"
  "proc_env (cwd d p) = proc_env p"
  "proc_env (stdin_string s p) = proc_env p"
  "proc_env (flags pf p) = proc_env p"
  "proc_env (stdout_flags sf p) = proc_env p"
  "proc_env (stdout_level l p) = proc_env p"
  "proc_env (stderr_level l p) = proc_env p"
  "proc_env (stderr_filter ef p) = proc_env p"
  by (simp_all add: builder_defs)

lemmas details_defs = details_init_def details_set_config_def details_apply_def
  details_fetch_def details_checkout_def details_revert_def details_current_branch_def
  details_add_submodule_def details_clone_def details_pull_def details_has_remote_def
  details_rename_remote_def details_add_remote_def details_set_remote_push_def
  details_set_assume_unchanged_def details_is_tracked_def details_is_repo_def
  details_remote_branch_exists_def details_has_uncommitted_changes_def
  details_has_stashed_changes_def details_remote_url_def

lemma details_env:
  "proc_env (details_init c root) = proc_env (make_process c)"
  "proc_env (details_set_config c root key val) = proc_env (make_process c)"
  "proc_env (details_apply c root diff) = proc_env (make_process c)"
  "proc_env (details_fetch c root remote branch) = proc_env (make_process c)"
  "proc_env (details_checkout c root what) = proc_env (make_process c)"
  "proc_env (details_revert c root file) = proc_env (make_process c)"
  "proc_env (details_current_branch c root) = proc_env (make_process c)"
  "proc_env (details_add_submodule c root branch submodule u) = proc_env (make_process c)"
  "proc_env (details_clone c root u branch shallow) = proc_env (make_process c)"
  "proc_env (details_pull c root u branch) = proc_env (make_process c)"
  "proc_env (details_has_remote c root name) = proc_env (make_process c)"
  "proc_env (details_rename_remote c root from to) = proc_env (make_process c)"
  "proc_env (details_add_remote c root name u) = proc_env (make_process c)"
  "proc_env (details_set_remote_push c root remote u) = proc_env (make_process c)"
  "proc_env (details_set_assume_unchanged c root file on) = proc_env (make_process c)"
  "proc_env (details_is_tracked c root file) = proc_env (make_process c)"
  "proc_env (details_is_repo c root) = proc_env (make_process c)"
  "proc_env (details_remote_branch_exists c u branch) = proc_env (make_process c)"
  "proc_env (details_has_uncommitted_changes c root) = proc_env (make_process c)"
  "proc_env (details_has_stashed_changes c root) = proc_env (make_process c)"
  "proc_env (details_remote_url c root) = proc_env (make_process c)"
  by (simp_all add: details_defs chain_def builder_keeps_env Let_def)

lemma non_interactive_cong: "proc_env p = proc_env q \<Longrightarrow> non_interactive p = non_interactive q"
  by (simp add: non_interactive_def)

text \<open>
  Claim C8. Every invocation the command layer builds, for every subcommand, carries the
  environment overrides \<^verbatim>\<open>GCM_INTERACTIVE=never\<close> and \<^verbatim>\<open>GIT_TERMINAL_PROMPT=0\<close>, whatever
  the ambient environment holds: \<^verbatim>\<open>make_process\<close> sets both, and no builder touches the
  environment afterwards.
\<close>

theorem every_invocation_non_interactive:
  "non_interactive (make_process c)
   \<and> non_interactive (details_init c root)
   \<and> non_interactive (details_set_config c root key val)
   \<and> non_interactive (details_apply c root diff)
   \<and> non_interactive (details_fetch c root remote branch)
   \<and> non_interactive (details_checkout c root what)
   \<and> non_interactive (details_revert c root file)
   \<and> non_interactive (details_current_branch c root)
   \<and> non_interactive (details_add_submodule c root branch submodule u)
   \<and> non_interactive (details_clone c root u branch shallow)
   \<and> non_interactive (details_pull c root u branch)
   \<and> non_interactive (details_has_remote c root name)
   \<and> non_interactive (details_rename_remote c root from to)
   \<and> non_interactive (details_add_remote c root name u)
   \<and> non_interactive (details_set_remote_push c root remote u)
   \<and> non_interactive (details_set_assume_unchanged c root file on)
   \<and> non_interactive (details_is_tracked c root file)
   \<and> non_interactive (details_is_repo c root)
   \<and> non_interactive (details_remote_branch_exists c u branch)
   \<and> non_interactive (details_has_uncommitted_changes c root)
   \<and> non_interactive (details_has_stashed_changes c root)
   \<and> non_interactive (details_remote_url c root)"
  using make_process_non_interactive [of c]
  by (simp add: non_interactive_cong [OF details_env(1)] non_interactive_def details_env)

section \<open>Running one process\<close>

text \<open>
  What the wrapper's operations do, in terms of the process primitive's answers.
\<close>

lemmas process_defs = details_defs chain_def make_process_def new_process_def builder_defs

lemmas sim_defs = sim_def sim_conf_def sim_repo_def git_sim_def command_line_def
  remote_of_key_def exit_code_def stdout_of_def world_after_def

lemma sim_conf_of: "sys_conf (sim c root) = c"
  by (simp add: sim_def)

lemma then_do_ret: "then_do (ret x) f = f x"
  by (rule ext) (simp add: then_do_def ret_def)

lemma join_eq:
  "join sys r p s =
     (if exit_code sys p (world s) \<noteq> 0 \<and> proc_flags p \<noteq> allow_failure then Inl Bailed
      else Inr (exit_code sys p (world s),
                if proc_stdout_flags p = keep_in_string then stdout_of sys p (world s) else []),
      \<lparr>world = world_after sys p (world s), trace = trace s @ [Ran r p]\<rparr>)"
  by (simp add: join_def exit_code_def stdout_of_def world_after_def Let_def split: prod.splits)

lemma run_eq: "run sys g p = join sys (gw_runner g) p"
  by (simp add: run_def run_and_join_def execute_and_join_def split: option.splits)

lemma details_flags:
  "proc_flags (details_has_uncommitted_changes c root) = allow_failure"
  "proc_flags (details_has_stashed_changes c root) = allow_failure"
  "proc_flags (details_is_repo c root) = allow_failure"
  "proc_flags (details_is_tracked c root file) = allow_failure"
  "proc_flags (details_has_remote c root name) = allow_failure"
  "proc_flags (details_remote_url c root) = no_process_flags"
  "proc_flags (details_set_assume_unchanged c root file on) = no_process_flags"
  "proc_flags (details_revert c root file) = no_process_flags"
  by (simp_all add: process_defs)

lemma details_stdout_flags:
  "proc_stdout_flags (details_has_uncommitted_changes c root) = keep_in_string"
  "proc_stdout_flags (details_remote_url c root) = keep_in_string"
  by (simp_all add: process_defs)

lemma has_uncommitted_changes_eq:
  "has_uncommitted_changes sys g s =
     (Inr (stdout_of sys (details_has_uncommitted_changes (sys_conf sys) (gw_root g)) (world s) \<noteq> []),
      \<lparr>world = world_after sys (details_has_uncommitted_changes (sys_conf sys) (gw_root g)) (world s),
       trace = trace s @ [Ran (gw_runner g) (details_has_uncommitted_changes (sys_conf sys) (gw_root g))]\<rparr>)"
  by (simp add: has_uncommitted_changes_def run_eq join_eq then_do_def ret_def
      details_flags details_stdout_flags)

lemma has_stashed_changes_eq:
  "has_stashed_changes sys g s =
     (Inr (exit_code sys (details_has_stashed_changes (sys_conf sys) (gw_root g)) (world s) = 0),
      \<lparr>world = world_after sys (details_has_stashed_changes (sys_conf sys) (gw_root g)) (world s),
       trace = trace s @ [Ran (gw_runner g) (details_has_stashed_changes (sys_conf sys) (gw_root g))]\<rparr>)"
  by (simp add: has_stashed_changes_def run_eq join_eq then_do_def ret_def details_flags)

lemma is_git_repo_eq:
  "is_git_repo sys g s =
     (Inr (exit_code sys (details_is_repo (sys_conf sys) (gw_root g)) (world s) = 0),
      \<lparr>world = world_after sys (details_is_repo (sys_conf sys) (gw_root g)) (world s),
       trace = trace s @ [Ran (gw_runner g) (details_is_repo (sys_conf sys) (gw_root g))]\<rparr>)"
  by (simp add: is_git_repo_def run_eq join_eq then_do_def ret_def details_flags)

lemma is_tracked_eq:
  "is_tracked sys g f s =
     (Inr (exit_code sys (details_is_tracked (sys_conf sys) (gw_root g) f) (world s) = 0),
      \<lparr>world = world_after sys (details_is_tracked (sys_conf sys) (gw_root g) f) (world s),
       trace = trace s @ [Ran (gw_runner g) (details_is_tracked (sys_conf sys) (gw_root g) f)]\<rparr>)"
  by (simp add: is_tracked_def run_eq join_eq then_do_def ret_def details_flags)

lemma has_remote_eq:
  "has_remote sys g n s =
     (Inr (exit_code sys (details_has_remote (sys_conf sys) (gw_root g) n) (world s) = 0),
      \<lparr>world = world_after sys (details_has_remote (sys_conf sys) (gw_root g) n) (world s),
       trace = trace s @ [Ran (gw_runner g) (details_has_remote (sys_conf sys) (gw_root g) n)]\<rparr>)"
  by (simp add: has_remote_def run_eq join_eq then_do_def ret_def details_flags)

lemma set_assume_unchanged_eq:
  "snd (set_assume_unchanged sys g f b s) =
     \<lparr>world = world_after sys (details_set_assume_unchanged (sys_conf sys) (gw_root g) f b)
               (world s),
      trace = trace s
        @ [Ran (gw_runner g) (details_set_assume_unchanged (sys_conf sys) (gw_root g) f b)]\<rparr>"
  by (simp add: set_assume_unchanged_def run_eq join_eq then_do_def ret_def)

section \<open>Uncommitted changes\<close>

text \<open>
  Claim C10. \<^verbatim>\<open>has_uncommitted_changes()\<close> returns true if and only if the captured stdout
  of the \<^verbatim>\<open>git status -s --porcelain\<close> invocation is a non-empty string. The exit code
  plays no part: the invocation allows failure, so the call never bails out, and a status
  command that fails and prints nothing is reported as "no uncommitted changes".
\<close>

theorem has_uncommitted_changes_reads_stdout_only:
  "fst (has_uncommitted_changes sys g s) =
     Inr (stdout_of sys (details_has_uncommitted_changes (sys_conf sys) (gw_root g)) (world s) \<noteq> [])
   \<and> proc_flags (details_has_uncommitted_changes (sys_conf sys) (gw_root g)) = allow_failure
   \<and> (exit_code sys (details_has_uncommitted_changes (sys_conf sys) (gw_root g)) (world s) \<noteq> 0
      \<and> stdout_of sys (details_has_uncommitted_changes (sys_conf sys) (gw_root g)) (world s) = []
      \<longrightarrow> fst (has_uncommitted_changes sys g s) = Inr False)"
  by (simp add: has_uncommitted_changes_eq details_flags)

text \<open>
  The small git outside a work tree: \<^verbatim>\<open>git status\<close> exits with 128 and prints nothing on
  stdout, and the wrapper answers "no uncommitted changes".
\<close>

theorem has_uncommitted_changes_failed_status_witness:
  "exit_code (sim sim_conf ''/r'')
     (details_has_uncommitted_changes sim_conf ''/r'') (sim_repo\<lparr>repo_work_tree := False\<rparr>) = 128
   \<and> stdout_of (sim sim_conf ''/r'')
     (details_has_uncommitted_changes sim_conf ''/r'') (sim_repo\<lparr>repo_work_tree := False\<rparr>) = []
   \<and> fst (has_uncommitted_changes (sim sim_conf ''/r'') \<lparr>gw_root = ''/r'', gw_runner = None\<rparr>
            \<lparr>world = sim_repo\<lparr>repo_work_tree := False\<rparr>, trace = []\<rparr>) = Inr False"
proof -
  have c: "exit_code (sim sim_conf ''/r'')
     (details_has_uncommitted_changes sim_conf ''/r'') (sim_repo\<lparr>repo_work_tree := False\<rparr>) = 128"
    by (simp add: sim_defs process_defs)
  have e: "stdout_of (sim sim_conf ''/r'')
     (details_has_uncommitted_changes sim_conf ''/r'') (sim_repo\<lparr>repo_work_tree := False\<rparr>) = []"
    by (simp add: sim_defs process_defs)
  have k: "sys_conf (sim sim_conf ''/r'') = sim_conf"
    by (simp add: sim_def)
  from has_uncommitted_changes_reads_stdout_only
    [of "sim sim_conf ''/r''" "\<lparr>gw_root = ''/r'', gw_runner = None\<rparr>"
        "\<lparr>world = sim_repo\<lparr>repo_work_tree := False\<rparr>, trace = []\<rparr>"] c e k
  show ?thesis by simp
qed

section \<open>The git tool\<close>

text \<open>
  Claim C7. Whenever the URL or the root of the git tool is empty, \<^verbatim>\<open>do_run\<close> fails
  fatally whatever the operation is: the only thing it does is report
  \<^verbatim>\<open>git missing parameters\<close>; no process is handed to the process primitive and the world
  is untouched.
\<close>

theorem do_run_missing_parameters:
  "git_url t = [] \<or> git_root t = [] \<Longrightarrow>
   do_run sys t s = (Inl Bailed, s\<lparr>trace := trace s @ [Logged Error ''git missing parameters'']\<rparr>)"
  by (simp add: do_run_def bail_out_def then_do_def log_def throw_bailed_def)

theorem do_run_missing_parameters_witness:
  "git_url ((new_git ops_clone_or_pull)\<lparr>git_root := ''/r''\<rparr>) = []
   \<and> do_run (sim sim_conf ''/r'') ((new_git ops_clone_or_pull)\<lparr>git_root := ''/r''\<rparr>)
        \<lparr>world = sim_repo, trace = []\<rparr>
      = (Inl Bailed, \<lparr>world = sim_repo, trace = [Logged Error ''git missing parameters'']\<rparr>)"
proof -
  have h: "git_url ((new_git ops_clone_or_pull)\<lparr>git_root := ''/r''\<rparr>) = []"
    by (simp add: new_git_def)
  from do_run_missing_parameters [of "(new_git ops_clone_or_pull)\<lparr>git_root := ''/r''\<rparr>"
      "sim sim_conf ''/r''" "\<lparr>world = sim_repo, trace = []\<rparr>"] h
  show ?thesis by simp
qed

lemma do_clone_exists:
  "sys_exists sys (path_append (git_root t) ''.git'') (world s) \<Longrightarrow>
   do_clone sys t s =
     (Inr False,
      s\<lparr>trace := trace s @ [Logged Trace (''not cloning, '' @ path_append (git_root t) ''.git''
                                          @ '' exists'')]\<rparr>)"
  by (simp add: do_clone_def Let_def then_do_def log_def ret_def)

text \<open>
  Claim C6. If the \<^verbatim>\<open>.git\<close> marker exists at the root, \<^verbatim>\<open>do_clone\<close> runs no process: it
  logs one line at trace level and returns false. So (with URL and root set) the operation
  \<^verbatim>\<open>clone\<close> succeeds having done nothing else, and the operation \<^verbatim>\<open>clone_or_pull\<close> goes on
  with \<^verbatim>\<open>do_pull\<close>, which, when translation files are not to be reverted first, runs
  exactly the \<^verbatim>\<open>git pull\<close> invocation.
\<close>

theorem clone_is_noop_when_dot_git_exists:
  assumes "git_url t \<noteq> []" and "git_root t \<noteq> []"
    and "sys_exists sys (path_append (git_root t) ''.git'') (world s)"
  shows "do_clone sys t s =
           (Inr False, s\<lparr>trace := trace s @ [Logged Trace
              (''not cloning, '' @ path_append (git_root t) ''.git'' @ '' exists'')]\<rparr>)
       \<and> (git_op t = ops_clone \<longrightarrow>
            do_run sys t s =
              (Inr (), s\<lparr>trace := trace s @ [Logged Trace
                 (''not cloning, '' @ path_append (git_root t) ''.git'' @ '' exists'')]\<rparr>))
       \<and> (git_op t = ops_clone_or_pull \<longrightarrow>
            do_run sys t s =
              do_pull sys t (s\<lparr>trace := trace s @ [Logged Trace
                 (''not cloning, '' @ path_append (git_root t) ''.git'' @ '' exists'')]\<rparr>))
       \<and> (git_op t = ops_clone_or_pull \<and> \<not> git_revert_ts t \<longrightarrow>
            added s (snd (do_run sys t s)) =
              [Logged Trace (''not cloning, '' @ path_append (git_root t) ''.git'' @ '' exists''),
               Ran (Some ''git'')
                 (details_pull (sys_conf sys) (git_root t) (git_url t) (git_branch t))])"
  using assms
  by (simp add: do_run_def then_do_ret do_clone_exists ret_def added_def
      do_pull_def pull_def run_eq join_eq then_do_def Let_def)

text \<open>
  Running the operation \<^verbatim>\<open>clone\<close> twice on the empty directory \<^verbatim>\<open>/r\<close> of the small git:
  the first run clones, which creates the marker; the second run finds it and only logs.
\<close>

lemma first_clone:
  "do_run (sim sim_conf ''/r'') (sim_tool ops_clone) sim_empty
   = (Inr (),
      \<lparr>world = sim_repo\<lparr>repo_work_tree := True, repo_present := True,
                 repo_remotes := [(''origin'', ''https://github.com/org/modorganizer.git'')]\<rparr>,
       trace = [Ran (Some ''git'')
                  (details_clone sim_conf ''/r'' ''https://github.com/org/modorganizer.git'' []
                     False)]\<rparr>)"
  by (simp add: do_run_def do_clone_def sim_tool_def sim_empty_def new_git_def then_do_ret
      clone_def run_eq join_eq then_do_def ret_def Let_def path_append_def is_separator_def
      sim_defs process_defs)

theorem clone_twice_witness:
  "sys_exists (sim sim_conf ''/r'') ''/r/.git''
     (world (snd (do_run (sim sim_conf ''/r'') (sim_tool ops_clone) sim_empty)))
   \<and> added sim_empty
       (snd (do_run (sim sim_conf ''/r'') (sim_tool ops_clone)
          (snd (do_run (sim sim_conf ''/r'') (sim_tool ops_clone) sim_empty))))
     = [Ran (Some ''git'')
          (details_clone sim_conf ''/r'' ''https://github.com/org/modorganizer.git'' [] False),
        Logged Trace ''not cloning, /r/.git exists'']"
proof -
  have t: "git_url (sim_tool ops_clone) \<noteq> []" "git_root (sim_tool ops_clone) \<noteq> []"
    "git_root (sim_tool ops_clone) = ''/r''" "git_op (sim_tool ops_clone) = ops_clone"
    by (simp_all add: sim_tool_def new_git_def)
  have p: "path_append ''/r'' ''.git'' = ''/r/.git''"
    by (simp add: path_append_def is_separator_def)
  have e: "sys_exists (sim sim_conf ''/r'') (path_append (git_root (sim_tool ops_clone)) ''.git'')
     (world (snd (do_run (sim sim_conf ''/r'') (sim_tool ops_clone) sim_empty)))"
    by (simp add: first_clone t p) (simp add: sim_def p)
  from clone_is_noop_when_dot_git_exists [OF t(1) t(2) e] e
  show ?thesis
    by (simp add: t p) (simp add: first_clone added_def, simp add: sim_empty_def)
qed

section \<open>The git file of the origin remote\<close>

lemma find_last_of_None: "(find_last_of s c = None) = (c \<notin> set s)"
  by (induction s) (auto split: option.splits)

lemma find_last_of_append:
  "c \<notin> set seg \<Longrightarrow> find_last_of (pre @ c # seg) c = Some (length pre)"
proof (induction pre)
  case Nil
  then have "find_last_of seg c = None" by (simp add: find_last_of_None)
  then show ?case by simp
next
  case (Cons x pre)
  then show ?case by simp
qed

lemma last_segment_append:
  "c \<notin> set seg \<Longrightarrow> rev (takeWhile (\<lambda>x. x \<noteq> c) (rev (pre @ c # seg))) = seg"
proof -
  assume c: "c \<notin> set seg"
  then have tw: "takeWhile (\<lambda>x. x \<noteq> c) (rev seg) = rev seg"
    by (auto simp: takeWhile_eq_all_conv)
  from c show ?thesis
    by (simp add: takeWhile_tail tw)
qed

lemma git_file_eq:
  "git_file sys g s =
     (let p = details_remote_url (sys_conf sys) (gw_root g);
          out = stdout_of sys p (world s);
          s' = \<lparr>world = world_after sys p (world s), trace = trace s @ [Ran (gw_runner g) p]\<rparr>;
          seg = trim_copy (rev (takeWhile (\<lambda>x. x \<noteq> CHR ''/'') (rev out)));
          complaint = Logged Error (''bad get-url output '' @ [CHR 0x27] @ out @ [CHR 0x27])
      in if exit_code sys p (world s) \<noteq> 0 then (Inl Bailed, s')
         else if CHR ''/'' \<notin> set out \<or> seg = [] then
           (Inl Bailed, s'\<lparr>trace := trace s' @ [complaint]\<rparr>)
         else (Inr seg, s'))"
proof (cases "CHR ''/'' \<in> set (stdout_of sys (details_remote_url (sys_conf sys) (gw_root g)) (world s))")
  case False
  then show ?thesis
    by (simp add: git_file_def run_eq join_eq then_do_def ret_def log_def throw_bailed_def
        details_flags details_stdout_flags Let_def find_last_of_None [THEN iffD2])
next
  case True
  then obtain pre seg where
    out: "stdout_of sys (details_remote_url (sys_conf sys) (gw_root g)) (world s)
            = pre @ CHR ''/'' # seg"
    and seg: "CHR ''/'' \<notin> set seg"
    by (auto dest: split_list_last)
  show ?thesis
    using seg
    by (simp add: git_file_def run_eq join_eq then_do_def ret_def log_def throw_bailed_def
        details_flags details_stdout_flags Let_def out find_last_of_append
        last_segment_append substr_def del: rev_append rev.simps)
qed

text \<open>
  Claim C5. Let \<open>u\<close> be what a successful \<^verbatim>\<open>git remote get-url origin\<close> printed.
  \<^verbatim>\<open>git_file()\<close> fails fatally exactly when \<open>u\<close> is empty, has no \<^verbatim>\<open>/\<close>, or the part after
  the last \<^verbatim>\<open>/\<close> is empty once trimmed; otherwise it returns that part, trimmed. (The part
  after the last \<^verbatim>\<open>/\<close> is written \<open>rev (takeWhile (\<lambda>c. c \<noteq> CHR ''/'') (rev u))\<close>; the
  third conjunct says that this is \<open>seg\<close> whenever \<open>u = pre @ ''/'' @ seg\<close> with no \<^verbatim>\<open>/\<close> in
  \<open>seg\<close>.) When the lookup itself exits with a nonzero code, the process primitive bails
  out before anything is parsed.
\<close>

theorem git_file_last_segment:
  assumes "sys_exec sys (details_remote_url (sys_conf sys) (gw_root g)) (world s) = ((0, u), w')"
  shows "((fst (git_file sys g s) = Inl Bailed)
            = (u = [] \<or> CHR ''/'' \<notin> set u
               \<or> trim_copy (rev (takeWhile (\<lambda>c. c \<noteq> CHR ''/'') (rev u))) = []))
       \<and> (fst (git_file sys g s) \<noteq> Inl Bailed \<longrightarrow>
            fst (git_file sys g s)
              = Inr (trim_copy (rev (takeWhile (\<lambda>c. c \<noteq> CHR ''/'') (rev u)))))
       \<and> (\<forall>pre seg. u = pre @ ''/'' @ seg \<and> CHR ''/'' \<notin> set seg \<longrightarrow>
            rev (takeWhile (\<lambda>c. c \<noteq> CHR ''/'') (rev u)) = seg)"
  using assms
  by (auto simp add: git_file_eq Let_def exit_code_def stdout_of_def last_segment_append
      simp del: rev_append rev.simps)

text \<open>
  On the clone of \<^verbatim>\<open>git@github.com:org/modorganizer.git\<close>, where git prints the URL and
  a line feed, the git file is \<^verbatim>\<open>modorganizer.git\<close>.
\<close>

theorem git_file_last_segment_witness:
  "sys_exec (sim sim_conf ''/r'') (details_remote_url sim_conf ''/r'') sim_repo
     = ((0, ''git@github.com:org/modorganizer.git'' @ [CHR 0x0A]), sim_repo)
   \<and> fst (git_file (sim sim_conf ''/r'') \<lparr>gw_root = ''/r'', gw_runner = None\<rparr>
            \<lparr>world = sim_repo, trace = []\<rparr>) = Inr ''modorganizer.git''"
proof -
  have k: "sys_conf (sim sim_conf ''/r'') = sim_conf"
    by (simp add: sim_def)
  have h: "sys_exec (sim sim_conf ''/r'') (details_remote_url sim_conf ''/r'') sim_repo
     = ((0, ''git@github.com:org/modorganizer.git'' @ [CHR 0x0A]), sim_repo)"
    by (simp add: sim_defs process_defs)
  have t: "trim_copy (rev (takeWhile (\<lambda>c. c \<noteq> CHR ''/'')
             (rev (''git@github.com:org/modorganizer.git'' @ [CHR 0x0A])))) = ''modorganizer.git''"
    by (simp add: trim_copy_def is_space_def)
  from git_file_last_segment [of "sim sim_conf ''/r''" "\<lparr>gw_root = ''/r'', gw_runner = None\<rparr>"
      "\<lparr>world = sim_repo, trace = []\<rparr>" "''git@github.com:org/modorganizer.git'' @ [CHR 0x0A]"
      sim_repo] h k t
  show ?thesis by simp
qed

section \<open>Deleting a directory\<close>

text \<open>
  Claim C1. \<^verbatim>\<open>git_wrap::delete_directory\<close> first asks whether the directory is a git
  repository. If it is and the override \<^verbatim>\<open>ignore_uncommitted\<close> is not set, it asks for
  uncommitted changes and, if there are none, for stashed changes, in this order and
  before anything is deleted. If either is found it bails out with a message that names
  \<^verbatim>\<open>--ignore-uncommitted-changes\<close>; then nothing was handed to \<^verbatim>\<open>op::delete_directory\<close>,
  and the world is exactly what the probes left. \<^verbatim>\<open>op::delete_directory\<close> is reached in
  the three remaining cases only: both checks passed, or the override is set, or the
  directory is not a git repository.
\<close>

theorem delete_directory_guard:
  "(let probe_repo = details_is_repo (sys_conf sys) dir;
        probe_status = details_has_uncommitted_changes (sys_conf sys) dir;
        probe_stash = details_has_stashed_changes (sys_conf sys) dir;
        w1 = world_after sys probe_repo (world s);
        w2 = world_after sys probe_status w1;
        w3 = world_after sys probe_stash w2;
        is_repo = (exit_code sys probe_repo (world s) = 0);
        override = conf_ignore_uncommitted (sys_conf sys);
        uncommitted = (stdout_of sys probe_status w1 \<noteq> []);
        stashed = (exit_code sys probe_stash w2 = 0)
    in
      (is_repo \<and> \<not> override \<and> uncommitted \<longrightarrow>
         delete_directory sys dir s =
           (Inl Bailed,
            \<lparr>world = w2,
             trace = trace s @
               [Ran None probe_repo, Ran None probe_status,
                Logged Error (''will not delete '' @ dir @ '', has uncommitted changes; ''
                              @ ''see --ignore-uncommitted-changes'')]\<rparr>))
    \<and> (is_repo \<and> \<not> override \<and> \<not> uncommitted \<and> stashed \<longrightarrow>
         delete_directory sys dir s =
           (Inl Bailed,
            \<lparr>world = w3,
             trace = trace s @
               [Ran None probe_repo, Ran None probe_status, Ran None probe_stash,
                Logged Error (''will not delete '' @ dir @ '', has stashed changes; ''
                              @ ''see --ignore-uncommitted-changes'')]\<rparr>))
    \<and> (is_repo \<and> \<not> override \<and> (uncommitted \<or> stashed) \<longrightarrow>
         fst (delete_directory sys dir s) = Inl Bailed
         \<and> (\<forall>d. Deleted d \<notin> set (added s (snd (delete_directory sys dir s)))))
    \<and> (is_repo \<and> \<not> override \<and> \<not> uncommitted \<and> \<not> stashed \<longrightarrow>
         delete_directory sys dir s =
           op_delete_directory sys dir
             \<lparr>world = w3,
              trace = trace s @
                [Ran None probe_repo, Ran None probe_status, Ran None probe_stash,
                 Logged Trace (''deleting directory controlled by git '' @ dir)]\<rparr>)
    \<and> (is_repo \<and> override \<longrightarrow>
         delete_directory sys dir s =
           op_delete_directory sys dir
             \<lparr>world = w1,
              trace = trace s @
                [Ran None probe_repo,
                 Logged Trace (''deleting directory controlled by git '' @ dir)]\<rparr>)
    \<and> (\<not> is_repo \<longrightarrow>
         delete_directory sys dir s =
           op_delete_directory sys dir \<lparr>world = w1, trace = trace s @ [Ran None probe_repo]\<rparr>))"
  by (simp add: delete_directory_def Let_def then_do_def is_git_repo_eq
      has_uncommitted_changes_eq has_stashed_changes_eq bail_out_def log_def throw_bailed_def
      ret_def added_def)

text \<open>
  The clone with a modified file: the deletion is refused after the second probe, and
  the directory is still there.
\<close>

theorem delete_directory_guard_witness:
  "exit_code (sim sim_conf ''/r'') (details_is_repo sim_conf ''/r'') (world sim_dirty) = 0
   \<and> \<not> conf_ignore_uncommitted sim_conf
   \<and> stdout_of (sim sim_conf ''/r'') (details_has_uncommitted_changes sim_conf ''/r'')
        (world sim_dirty) = '' M src/main.cpp''
   \<and> delete_directory (sim sim_conf ''/r'') ''/r'' sim_dirty =
       (Inl Bailed,
        \<lparr>world = world sim_dirty,
         trace = [Ran None (details_is_repo sim_conf ''/r''),
                  Ran None (details_has_uncommitted_changes sim_conf ''/r''),
                  Logged Error (''will not delete /r, has uncommitted changes; ''
                                @ ''see --ignore-uncommitted-changes'')]\<rparr>)
   \<and> repo_present (world (snd (delete_directory (sim sim_conf ''/r'') ''/r'' sim_dirty)))"
proof -
  let ?sys = "sim sim_conf ''/r''"
  have a: "exit_code ?sys (details_is_repo sim_conf ''/r'') (world sim_dirty) = 0"
    by (simp add: sim_dirty_def sim_defs process_defs)
  have b: "\<not> conf_ignore_uncommitted sim_conf"
    by (simp add: sim_conf_def)
  have w1: "world_after ?sys (details_is_repo sim_conf ''/r'') (world sim_dirty) = world sim_dirty"
    by (simp add: sim_dirty_def sim_defs process_defs)
  have c: "stdout_of ?sys (details_has_uncommitted_changes sim_conf ''/r'') (world sim_dirty)
             = '' M src/main.cpp''"
    by (simp add: sim_dirty_def sim_defs process_defs)
  have w2: "world_after ?sys (details_has_uncommitted_changes sim_conf ''/r'') (world sim_dirty)
             = world sim_dirty"
    by (simp add: sim_dirty_def sim_defs process_defs)
  have t: "trace sim_dirty = []"
    by (simp add: sim_dirty_def)
  have p: "repo_present (world sim_dirty)"
    by (simp add: sim_dirty_def sim_repo_def)
  from delete_directory_guard [where sys = ?sys and dir = "''/r''" and s = sim_dirty] a b c w1 w2 t p
  show ?thesis
    by (simp add: Let_def sim_conf_of)
qed

section \<open>Translation files\<close>

text \<open>Replaying a trace, and how guarded traces compose.\<close>

lemma world_at_append: "world_at sys (xs @ ys) w = world_at sys ys (world_at sys xs w)"
  by (induction sys xs w rule: world_at.induct) simp_all

lemma world_at_logs:
  "\<forall>e\<in>set xs. \<exists>m. e = Logged lv m \<Longrightarrow> world_at sys xs w = w"
  by (induction xs) auto

lemma allowed_mono:
  assumes a: "allowed sys ts probe act mid lv w pre e" and m: "\<And>q. ts q \<Longrightarrow> ts' q"
  shows "allowed sys ts' probe act mid lv w pre e"
proof (cases e)
  case (Ran r p)
  with a obtain q where "ts q" and "p = probe q
               \<or> p = act q
                 \<and> (\<exists>pre'. pre = pre' @ Ran r (probe q) # mid q
                       \<and> exit_code sys (probe q) (world_at sys pre' w) = 0)"
    unfolding allowed_def by auto
  with m [of q] have "\<exists>q. ts' q \<and> (p = probe q
               \<or> p = act q
                 \<and> (\<exists>pre'. pre = pre' @ Ran r (probe q) # mid q
                       \<and> exit_code sys (probe q) (world_at sys pre' w) = 0))"
    by blast
  with Ran show ?thesis unfolding allowed_def by simp
next
  case (Logged l m)
  with a show ?thesis unfolding allowed_def by simp
next
  case (Deleted d)
  with a show ?thesis unfolding allowed_def by simp
qed

lemma allowed_shift:
  assumes a: "allowed sys ts probe act mid lv (world_at sys xs w) pre e"
  shows "allowed sys ts probe act mid lv w (xs @ pre) e"
proof (cases e)
  case (Ran r p)
  with a obtain q where q: "ts q" and alt: "p = probe q
               \<or> p = act q
                 \<and> (\<exists>pre'. pre = pre' @ Ran r (probe q) # mid q
                       \<and> exit_code sys (probe q) (world_at sys pre' (world_at sys xs w)) = 0)"
    unfolding allowed_def by auto
  from alt have "p = probe q
               \<or> p = act q
                 \<and> (\<exists>pre'. xs @ pre = pre' @ Ran r (probe q) # mid q
                       \<and> exit_code sys (probe q) (world_at sys pre' w) = 0)"
  proof
    assume "p = probe q"
    then show ?thesis by simp
  next
    assume "p = act q
                 \<and> (\<exists>pre'. pre = pre' @ Ran r (probe q) # mid q
                       \<and> exit_code sys (probe q) (world_at sys pre' (world_at sys xs w)) = 0)"
    then obtain pre' where c: "p = act q" and p2: "pre = pre' @ Ran r (probe q) # mid q"
      and t: "exit_code sys (probe q) (world_at sys pre' (world_at sys xs w)) = 0"
      by blast
    from p2 have "xs @ pre = (xs @ pre') @ Ran r (probe q) # mid q" by simp
    moreover from t have "exit_code sys (probe q) (world_at sys (xs @ pre') w) = 0"
      by (simp add: world_at_append)
    ultimately show ?thesis using c by blast
  qed
  with q have "\<exists>q. ts q \<and> (p = probe q
               \<or> p = act q
                 \<and> (\<exists>pre'. xs @ pre = pre' @ Ran r (probe q) # mid q
                       \<and> exit_code sys (probe q) (world_at sys pre' w) = 0))"
    by blast
  with Ran show ?thesis unfolding allowed_def by simp
next
  case (Logged l m)
  with a show ?thesis unfolding allowed_def by simp
next
  case (Deleted d)
  with a show ?thesis unfolding allowed_def by simp
qed

lemma guarded_mono:
  assumes g: "guarded sys ts probe act mid lv w evs" and m: "\<And>q. ts q \<Longrightarrow> ts' q"
  shows "guarded sys ts' probe act mid lv w evs"
  unfolding guarded_def
proof (intro allI impI)
  fix pre e post
  assume "evs = pre @ e # post"
  with g have "allowed sys ts probe act mid lv w pre e"
    unfolding guarded_def by blast
  then show "allowed sys ts' probe act mid lv w pre e"
    by (rule allowed_mono) (rule m)
qed

lemma guarded_Nil: "guarded sys ts probe act mid lv w []"
  by (simp add: guarded_def)

lemma split_append:
  assumes "xs @ ys = pre @ e # post"
  shows "(\<exists>post1. xs = pre @ e # post1) \<or> (\<exists>pre2. pre = xs @ pre2 \<and> ys = pre2 @ e # post)"
  using assms
proof (induction xs arbitrary: pre)
  case Nil
  then show ?case by simp
next
  case (Cons x xs)
  show ?case
  proof (cases pre)
    case Nil
    with Cons.prems show ?thesis by simp
  next
    case (Cons p pre')
    with Cons.prems have "x = p" and "xs @ ys = pre' @ e # post" by simp_all
    with Cons.IH [of pre'] Cons show ?thesis by auto
  qed
qed

lemma guarded_append:
  assumes x: "guarded sys ts probe act mid lv w xs"
    and y: "guarded sys ts probe act mid lv (world_at sys xs w) ys"
  shows "guarded sys ts probe act mid lv w (xs @ ys)"
  unfolding guarded_def
proof (intro allI impI)
  fix pre e post
  assume d: "xs @ ys = pre @ e # post"
  from split_append [OF d] show "allowed sys ts probe act mid lv w pre e"
  proof
    assume "\<exists>post1. xs = pre @ e # post1"
    with x show ?thesis unfolding guarded_def by blast
  next
    assume "\<exists>pre2. pre = xs @ pre2 \<and> ys = pre2 @ e # post"
    then obtain pre2 where p: "pre = xs @ pre2" and yy: "ys = pre2 @ e # post" by blast
    from y yy have "allowed sys ts probe act mid lv (world_at sys xs w) pre2 e"
      unfolding guarded_def by blast
    then show ?thesis unfolding p by (rule allowed_shift)
  qed
qed

lemma guarded_tracked_block:
  assumes q: "ts q" and t: "exit_code sys (probe q) w = 0"
    and logs: "\<forall>e\<in>set (mid q). \<exists>m. e = Logged lv m"
  shows "guarded sys ts probe act mid lv w (Ran R (probe q) # mid q @ [Ran R (act q)])"
  unfolding guarded_def
proof (intro allI impI)
  fix pre e post
  assume d: "Ran R (probe q) # mid q @ [Ran R (act q)] = pre @ e # post"
  show "allowed sys ts probe act mid lv w pre e"
  proof (cases pre)
    case Nil
    with d have "e = Ran R (probe q)" by simp
    with q show ?thesis unfolding allowed_def by auto
  next
    case (Cons x pre2)
    with d have x: "x = Ran R (probe q)" and d2: "mid q @ [Ran R (act q)] = pre2 @ e # post"
      by simp_all
    from split_append [OF d2] show ?thesis
    proof
      assume "\<exists>post1. mid q = pre2 @ e # post1"
      then have "e \<in> set (mid q)" by auto
      with logs obtain m where "e = Logged lv m" by blast
      then show ?thesis unfolding allowed_def by simp
    next
      assume "\<exists>pre3. pre2 = mid q @ pre3 \<and> [Ran R (act q)] = pre3 @ e # post"
      then obtain pre3 where p2: "pre2 = mid q @ pre3" and l: "[Ran R (act q)] = pre3 @ e # post"
        by blast
      from l have p3: "pre3 = []" and e: "e = Ran R (act q)"
        by (cases pre3; simp)+
      from Cons x p2 p3 have "pre = [] @ Ran R (probe q) # mid q" by simp
      moreover from t have "exit_code sys (probe q) (world_at sys [] w) = 0" by simp
      ultimately have "\<exists>pre'. pre = pre' @ Ran R (probe q) # mid q
          \<and> exit_code sys (probe q) (world_at sys pre' w) = 0"
        by blast
      with q e show ?thesis unfolding allowed_def by auto
    qed
  qed
qed

lemma guarded_skipped_block:
  assumes q: "ts q" and logs: "\<forall>e\<in>set (skip q). \<exists>m. e = Logged lv m"
  shows "guarded sys ts probe act mid lv w (Ran R (probe q) # skip q)"
  unfolding guarded_def
proof (intro allI impI)
  fix pre e post
  assume d: "Ran R (probe q) # skip q = pre @ e # post"
  show "allowed sys ts probe act mid lv w pre e"
  proof (cases pre)
    case Nil
    with d have "e = Ran R (probe q)" by simp
    with q show ?thesis unfolding allowed_def by auto
  next
    case (Cons x pre2)
    with d have "skip q = pre2 @ e # post" by simp
    then have "e \<in> set (skip q)" by auto
    with logs obtain m where "e = Logged lv m" by blast
    then show ?thesis unfolding allowed_def by simp
  qed
qed

lemma all_visited_shift:
  assumes v: "all_visited sys R ts probe act mid skip (world_at sys xs w) ys"
  shows "all_visited sys R ts probe act mid skip w (xs @ ys)"
  unfolding all_visited_def
proof (intro allI impI)
  fix q assume "ts q"
  with v obtain pre post where e: "ys = pre @ Ran R (probe q) # post"
    and c: "if exit_code sys (probe q) (world_at sys pre (world_at sys xs w)) = 0
              then \<exists>post'. post = mid q @ Ran R (act q) # post'
              else \<exists>post'. post = skip q @ post'"
    unfolding all_visited_def by blast
  from e have "xs @ ys = (xs @ pre) @ Ran R (probe q) # post" by simp
  moreover from c have "if exit_code sys (probe q) (world_at sys (xs @ pre) w) = 0
              then \<exists>post'. post = mid q @ Ran R (act q) # post'
              else \<exists>post'. post = skip q @ post'"
    by (simp add: world_at_append)
  ultimately show "\<exists>pre post. xs @ ys = pre @ Ran R (probe q) # post
           \<and> (if exit_code sys (probe q) (world_at sys pre w) = 0
              then \<exists>post'. post = mid q @ Ran R (act q) # post'
              else \<exists>post'. post = skip q @ post')"
    by blast
qed

lemma visited_tracked_head:
  assumes t: "exit_code sys (probe q) w = 0"
  shows "\<exists>pre post. (Ran R (probe q) # mid q @ [Ran R (act q)]) @ ys = pre @ Ran R (probe q) # post
           \<and> (if exit_code sys (probe q) (world_at sys pre w) = 0
              then \<exists>post'. post = mid q @ Ran R (act q) # post'
              else \<exists>post'. post = skip q @ post')"
proof -
  have "(Ran R (probe q) # mid q @ [Ran R (act q)]) @ ys
          = [] @ Ran R (probe q) # (mid q @ Ran R (act q) # ys)" by simp
  moreover have "if exit_code sys (probe q) (world_at sys [] w) = 0
              then \<exists>post'. mid q @ Ran R (act q) # ys = mid q @ Ran R (act q) # post'
              else \<exists>post'. mid q @ Ran R (act q) # ys = skip q @ post'"
    using t by simp
  ultimately show ?thesis by blast
qed

lemma visited_skipped_head:
  assumes t: "exit_code sys (probe q) w \<noteq> 0"
  shows "\<exists>pre post. (Ran R (probe q) # skip q) @ ys = pre @ Ran R (probe q) # post
           \<and> (if exit_code sys (probe q) (world_at sys pre w) = 0
              then \<exists>post'. post = mid q @ Ran R (act q) # post'
              else \<exists>post'. post = skip q @ post')"
proof -
  have "(Ran R (probe q) # skip q) @ ys = [] @ Ran R (probe q) # (skip q @ ys)" by simp
  moreover have "if exit_code sys (probe q) (world_at sys [] w) = 0
              then \<exists>post'. skip q @ ys = mid q @ Ran R (act q) # post'
              else \<exists>post'. skip q @ ys = skip q @ post'"
    using t by simp
  ultimately show ?thesis by blast
qed

lemma failed_mono:
  assumes f: "failed sys R ts act w evs" and m: "\<And>q. ts q \<Longrightarrow> ts' q"
  shows "failed sys R ts' act w evs"
proof -
  from f obtain pre q where "ts q" and "evs = pre @ [Ran R (act q)]"
    and "exit_code sys (act q) (world_at sys pre w) \<noteq> 0"
    unfolding failed_def by blast
  with m [of q] show ?thesis unfolding failed_def by blast
qed

lemma failed_shift:
  assumes f: "failed sys R ts act (world_at sys xs w) ys"
  shows "failed sys R ts act w (xs @ ys)"
proof -
  from f obtain pre q where q: "ts q" and e: "ys = pre @ [Ran R (act q)]"
    and x: "exit_code sys (act q) (world_at sys pre (world_at sys xs w)) \<noteq> 0"
    unfolding failed_def by blast
  from e have "xs @ ys = (xs @ pre) @ [Ran R (act q)]" by simp
  moreover from x have "exit_code sys (act q) (world_at sys (xs @ pre) w) \<noteq> 0"
    by (simp add: world_at_append)
  ultimately show ?thesis using q unfolding failed_def by blast
qed

lemma failed_block:
  assumes q: "ts q" and x: "exit_code sys (act q) (world_after sys P w) \<noteq> 0"
    and logs: "\<forall>e\<in>set ms. \<exists>m. e = Logged lv m"
  shows "failed sys R ts act w (Ran R P # ms @ [Ran R (act q)])"
proof -
  have "Ran R P # ms @ [Ran R (act q)] = (Ran R P # ms) @ [Ran R (act q)]" by simp
  moreover have "world_at sys (Ran R P # ms) w = world_after sys P w"
    using logs by (simp add: world_at_logs [where lv = lv])
  with x have "exit_code sys (act q) (world_at sys (Ran R P # ms) w) \<noteq> 0" by simp
  ultimately show ?thesis using q unfolding failed_def by blast
qed

text \<open>
  The loop of \<^verbatim>\<open>for_each_ts\<close> over a body that probes a file and acts on that same file at
  once: by induction over the entries.
\<close>

lemma ts_of_Nil: "\<not> ts_of [] q"
  by (simp add: ts_of_def)

lemma ts_of_skip:
  "\<not> (reg \<and> ends_with (extension p) ''.ts'') \<Longrightarrow> ts_of ((p, reg) # es) = ts_of es"
  by (rule ext) (auto simp: ts_of_def)

lemma ts_of_Cons:
  "reg \<Longrightarrow> ends_with (extension p) ''.ts'' \<Longrightarrow>
   ts_of ((p, reg) # es) q = (q = p \<or> ts_of es q)"
  by (auto simp: ts_of_def)

lemma world_at_tracked_block:
  assumes "\<forall>e\<in>set ms. \<exists>m. e = Logged lv m"
  shows "world_at sys (Ran R P # ms @ [Ran R A]) w = world_after sys A (world_after sys P w)"
  using assms by (simp add: world_at_append world_at_logs [where lv = lv])

lemma world_at_skipped_block:
  assumes "\<forall>e\<in>set ms. \<exists>m. e = Logged lv m"
  shows "world_at sys (Ran R P # ms) w = world_after sys P w"
  using assms by (simp add: world_at_logs [where lv = lv])

lemma all_visited_Cons:
  assumes reg: "reg" and ext: "ends_with (extension p) ''.ts''"
    and hd: "\<exists>pre post. evs = pre @ Ran R (probe p) # post
           \<and> (if exit_code sys (probe p) (world_at sys pre w) = 0
              then \<exists>post'. post = mid p @ Ran R (act p) # post'
              else \<exists>post'. post = skip p @ post')"
    and tl: "all_visited sys R (ts_of es) probe act mid skip w evs"
  shows "all_visited sys R (ts_of ((p, reg) # es)) probe act mid skip w evs"
  unfolding all_visited_def
proof (intro allI impI)
  fix q assume "ts_of ((p, reg) # es) q"
  with reg ext have "q = p \<or> ts_of es q" by (simp add: ts_of_Cons)
  then show "\<exists>pre post. evs = pre @ Ran R (probe q) # post
           \<and> (if exit_code sys (probe q) (world_at sys pre w) = 0
              then \<exists>post'. post = mid q @ Ran R (act q) # post'
              else \<exists>post'. post = skip q @ post')"
  proof
    assume qp: "q = p"
    show ?thesis unfolding qp by (rule hd)
  next
    assume "ts_of es q"
    with tl show ?thesis unfolding all_visited_def by blast
  qed
qed

lemma for_each_entry_visits:
  fixes sys :: "'w sys" and f :: "path \<Rightarrow> ('w, unit) action"
  assumes body: "\<And>q s. f q s =
      (if exit_code sys (probe q) (world s) = 0 then
         (if exit_code sys (act q) (world_after sys (probe q) (world s)) \<noteq> 0 then Inl Bailed
          else Inr (),
          \<lparr>world = world_after sys (act q) (world_after sys (probe q) (world s)),
           trace = trace s @ Ran R (probe q) # mid q @ [Ran R (act q)]\<rparr>)
       else
         (Inr (),
          \<lparr>world = world_after sys (probe q) (world s),
           trace = trace s @ Ran R (probe q) # skip q\<rparr>))"
    and mids: "\<And>q. \<forall>e\<in>set (mid q). \<exists>m. e = Logged lv m"
    and skips: "\<And>q. \<forall>e\<in>set (skip q). \<exists>m. e = Logged lv m"
  shows "\<exists>evs. trace (snd (for_each_entry f es s)) = trace s @ evs
           \<and> world (snd (for_each_entry f es s)) = world_at sys evs (world s)
           \<and> guarded sys (ts_of es) probe act mid lv (world s) evs
           \<and> (fst (for_each_entry f es s) = Inr () \<longrightarrow>
                all_visited sys R (ts_of es) probe act mid skip (world s) evs)
            \<and> (fst (for_each_entry f es s) \<noteq> Inr () \<longrightarrow>
                failed sys R (ts_of es) act (world s) evs)"
proof (induction es arbitrary: s)
  case Nil
  have "trace (snd (for_each_entry f [] s)) = trace s @ []
           \<and> world (snd (for_each_entry f [] s)) = world_at sys [] (world s)
           \<and> guarded sys (ts_of []) probe act mid lv (world s) []
           \<and> (fst (for_each_entry f [] s) = Inr () \<longrightarrow>
                all_visited sys R (ts_of []) probe act mid skip (world s) [])
            \<and> (fst (for_each_entry f [] s) \<noteq> Inr () \<longrightarrow>
                failed sys R (ts_of []) act (world s) [])"
    by (simp add: ret_def guarded_Nil all_visited_def ts_of_Nil)
  then show ?case by blast
next
  case (Cons a es)
  obtain p reg where a: "a = (p, reg)" by (cases a)
  show ?case
  proof (cases "reg \<and> ends_with (extension p) ''.ts''")
    case False
    then have "for_each_entry f (a # es) s = for_each_entry f es s"
      by (auto simp: a)
    moreover from False have "ts_of (a # es) = ts_of es"
      unfolding a by (rule ts_of_skip)
    ultimately show ?thesis using Cons.IH [of s] by simp
  next
    case True
    then have reg: "reg" and ext: "ends_with (extension p) ''.ts''" by simp_all
    have here: "ts_of (a # es) p"
      using reg ext by (simp add: a ts_of_def)
    have sub: "ts_of es q \<Longrightarrow> ts_of (a # es) q" for q
      by (simp add: ts_of_def)
    have step: "for_each_entry f (a # es) s = then_do (f p) (\<lambda>_. for_each_entry f es) s"
      using True by (simp add: a)
    show ?thesis
    proof (cases "exit_code sys (probe p) (world s) = 0")
      case tracked: True
      define blk where "blk = Ran R (probe p) # mid p @ [Ran R (act p)]"
      define s1 :: "'w state" where
        "s1 = \<lparr>world = world_after sys (act p) (world_after sys (probe p) (world s)),
               trace = trace s @ blk\<rparr>"
      have w1: "world s1 = world_at sys blk (world s)"
        unfolding s1_def blk_def
        by (simp del: world_at.simps add: world_at_tracked_block [OF mids])
      have t1: "trace s1 = trace s @ blk"
        by (simp add: s1_def)
      have g1: "guarded sys (ts_of (a # es)) probe act mid lv (world s) blk"
        unfolding blk_def
        by (rule guarded_tracked_block [where q = p and probe = probe and mid = mid and act = act])
          (rule here, rule tracked, rule mids)
      show ?thesis
      proof (cases "exit_code sys (act p) (world_after sys (probe p) (world s)) \<noteq> 0")
        case True
        with tracked have "f p s = (Inl Bailed, s1)"
          by (simp add: body s1_def blk_def)
        then have r: "for_each_entry f (a # es) s = (Inl Bailed, s1)"
          by (simp add: step then_do_def)
        have fl: "failed sys R (ts_of (a # es)) act (world s) blk"
          unfolding blk_def
          by (rule failed_block [where q = p and act = act and lv = lv])
            (rule here, rule True, rule mids)
        have "trace (snd (for_each_entry f (a # es) s)) = trace s @ blk
           \<and> world (snd (for_each_entry f (a # es) s)) = world_at sys blk (world s)
           \<and> guarded sys (ts_of (a # es)) probe act mid lv (world s) blk
           \<and> (fst (for_each_entry f (a # es) s) = Inr () \<longrightarrow>
                all_visited sys R (ts_of (a # es)) probe act mid skip (world s) blk)
            \<and> (fst (for_each_entry f (a # es) s) \<noteq> Inr () \<longrightarrow>
                failed sys R (ts_of (a # es)) act (world s) blk)"
          using r w1 t1 g1 fl by simp
        then show ?thesis by blast
      next
        case False
        with tracked have "f p s = (Inr (), s1)"
          by (simp add: body s1_def blk_def)
        then have r: "for_each_entry f (a # es) s = for_each_entry f es s1"
          by (simp add: step then_do_def)
        from Cons.IH [of s1] obtain evs where
          t2: "trace (snd (for_each_entry f es s1)) = trace s1 @ evs"
          and w2: "world (snd (for_each_entry f es s1)) = world_at sys evs (world s1)"
          and g2: "guarded sys (ts_of es) probe act mid lv (world s1) evs"
          and v2: "fst (for_each_entry f es s1) = Inr () \<longrightarrow>
                all_visited sys R (ts_of es) probe act mid skip (world s1) evs"
          and f2: "fst (for_each_entry f es s1) \<noteq> Inr () \<longrightarrow>
                failed sys R (ts_of es) act (world s1) evs"
          by blast
        have fl: "failed sys R (ts_of (a # es)) act (world s) (blk @ evs)"
          if bad: "fst (for_each_entry f es s1) \<noteq> Inr ()"
        proof (rule failed_shift)
          from f2 bad have "failed sys R (ts_of es) act (world s1) evs" by simp
          then show "failed sys R (ts_of (a # es)) act (world_at sys blk (world s)) evs"
            unfolding w1 [symmetric] by (rule failed_mono) (rule sub)
        qed
        have g: "guarded sys (ts_of (a # es)) probe act mid lv (world s) (blk @ evs)"
        proof (rule guarded_append [OF g1])
          from g2 show "guarded sys (ts_of (a # es)) probe act mid lv
              (world_at sys blk (world s)) evs"
            unfolding w1 [symmetric] by (rule guarded_mono) (rule sub)
        qed
        have v: "all_visited sys R (ts_of (a # es)) probe act mid skip (world s) (blk @ evs)"
          if ok: "fst (for_each_entry f es s1) = Inr ()"
          unfolding a
        proof (rule all_visited_Cons [OF reg ext])
          show "\<exists>pre post. blk @ evs = pre @ Ran R (probe p) # post
           \<and> (if exit_code sys (probe p) (world_at sys pre (world s)) = 0
              then \<exists>post'. post = mid p @ Ran R (act p) # post'
              else \<exists>post'. post = skip p @ post')"
            unfolding blk_def
            by (rule visited_tracked_head [where q = p and probe = probe]) (rule tracked)
        next
          from v2 ok have "all_visited sys R (ts_of es) probe act mid skip (world s1) evs"
            by simp
          then show "all_visited sys R (ts_of es) probe act mid skip (world s) (blk @ evs)"
            unfolding w1 by (rule all_visited_shift)
        qed
        have "trace (snd (for_each_entry f (a # es) s)) = trace s @ (blk @ evs)
           \<and> world (snd (for_each_entry f (a # es) s)) = world_at sys (blk @ evs) (world s)
           \<and> guarded sys (ts_of (a # es)) probe act mid lv (world s) (blk @ evs)
           \<and> (fst (for_each_entry f (a # es) s) = Inr () \<longrightarrow>
                all_visited sys R (ts_of (a # es)) probe act mid skip (world s) (blk @ evs))
            \<and> (fst (for_each_entry f (a # es) s) \<noteq> Inr () \<longrightarrow>
                failed sys R (ts_of (a # es)) act (world s) (blk @ evs))"
          using r t1 t2 w1 w2 g v fl by (simp add: world_at_append)
        then show ?thesis by blast
      qed
    next
      case untracked: False
      define blk where "blk = Ran R (probe p) # skip p"
      define s1 :: "'w state" where
        "s1 = \<lparr>world = world_after sys (probe p) (world s), trace = trace s @ blk\<rparr>"
      have w1: "world s1 = world_at sys blk (world s)"
        unfolding s1_def blk_def
        by (simp del: world_at.simps add: world_at_skipped_block [OF skips])
      have t1: "trace s1 = trace s @ blk"
        by (simp add: s1_def)
      have g1: "guarded sys (ts_of (a # es)) probe act mid lv (world s) blk"
        unfolding blk_def
        by (rule guarded_skipped_block [where q = p and probe = probe and skip = skip])
          (rule here, rule skips)
      from untracked have "f p s = (Inr (), s1)"
        by (simp add: body s1_def blk_def)
      then have r: "for_each_entry f (a # es) s = for_each_entry f es s1"
        by (simp add: step then_do_def)
      from Cons.IH [of s1] obtain evs where
        t2: "trace (snd (for_each_entry f es s1)) = trace s1 @ evs"
        and w2: "world (snd (for_each_entry f es s1)) = world_at sys evs (world s1)"
        and g2: "guarded sys (ts_of es) probe act mid lv (world s1) evs"
        and v2: "fst (for_each_entry f es s1) = Inr () \<longrightarrow>
              all_visited sys R (ts_of es) probe act mid skip (world s1) evs"
        and f2: "fst (for_each_entry f es s1) \<noteq> Inr () \<longrightarrow>
              failed sys R (ts_of es) act (world s1) evs"
        by blast
      have fl: "failed sys R (ts_of (a # es)) act (world s) (blk @ evs)"
        if bad: "fst (for_each_entry f es s1) \<noteq> Inr ()"
      proof (rule failed_shift)
        from f2 bad have "failed sys R (ts_of es) act (world s1) evs" by simp
        then show "failed sys R (ts_of (a # es)) act (world_at sys blk (world s)) evs"
          unfolding w1 [symmetric] by (rule failed_mono) (rule sub)
      qed
      have g: "guarded sys (ts_of (a # es)) probe act mid lv (world s) (blk @ evs)"
      proof (rule guarded_append [OF g1])
        from g2 show "guarded sys (ts_of (a # es)) probe act mid lv
            (world_at sys blk (world s)) evs"
          unfolding w1 [symmetric] by (rule guarded_mono) (rule sub)
      qed
      have v: "all_visited sys R (ts_of (a # es)) probe act mid skip (world s) (blk @ evs)"
        if ok: "fst (for_each_entry f es s1) = Inr ()"
        unfolding a
      proof (rule all_visited_Cons [OF reg ext])
        show "\<exists>pre post. blk @ evs = pre @ Ran R (probe p) # post
         \<and> (if exit_code sys (probe p) (world_at sys pre (world s)) = 0
            then \<exists>post'. post = mid p @ Ran R (act p) # post'
            else \<exists>post'. post = skip p @ post')"
          unfolding blk_def
          by (rule visited_skipped_head [where q = p and probe = probe]) (rule untracked)
      next
        from v2 ok have "all_visited sys R (ts_of es) probe act mid skip (world s1) evs"
          by simp
        then show "all_visited sys R (ts_of es) probe act mid skip (world s) (blk @ evs)"
          unfolding w1 by (rule all_visited_shift)
      qed
      have "trace (snd (for_each_entry f (a # es) s)) = trace s @ (blk @ evs)
         \<and> world (snd (for_each_entry f (a # es) s)) = world_at sys (blk @ evs) (world s)
         \<and> guarded sys (ts_of (a # es)) probe act mid lv (world s) (blk @ evs)
         \<and> (fst (for_each_entry f (a # es) s) = Inr () \<longrightarrow>
              all_visited sys R (ts_of (a # es)) probe act mid skip (world s) (blk @ evs))
          \<and> (fst (for_each_entry f (a # es) s) \<noteq> Inr () \<longrightarrow>
              failed sys R (ts_of (a # es)) act (world s) (blk @ evs))"
        using r t1 t2 w1 w2 g v fl by (simp add: world_at_append)
      then show ?thesis by blast
    qed
  qed
qed

text \<open>The bodies of \<^verbatim>\<open>ignore_ts\<close> and \<^verbatim>\<open>revert_ts\<close> are of that form.\<close>

lemma ignore_ts_body:
  "(let rp = sys_relative sys q (gw_root g) in
       then_do (is_tracked sys g rp) (\<lambda>tracked.
         if tracked then
           then_do (log Trace (''  . '' @ rp)) (\<lambda>_. set_assume_unchanged sys g rp b)
         else log Trace (''  . '' @ rp @ '' (skipping, not tracked)''))) s =
   (if exit_code sys (details_is_tracked (sys_conf sys) (gw_root g) (sys_relative sys q (gw_root g)))
         (world s) = 0 then
      (if exit_code sys
            (details_set_assume_unchanged (sys_conf sys) (gw_root g)
               (sys_relative sys q (gw_root g)) b)
            (world_after sys
               (details_is_tracked (sys_conf sys) (gw_root g) (sys_relative sys q (gw_root g)))
               (world s)) \<noteq> 0
       then Inl Bailed else Inr (),
       \<lparr>world = world_after sys
            (details_set_assume_unchanged (sys_conf sys) (gw_root g)
               (sys_relative sys q (gw_root g)) b)
            (world_after sys
               (details_is_tracked (sys_conf sys) (gw_root g) (sys_relative sys q (gw_root g)))
               (world s)),
        trace = trace s
          @ Ran (gw_runner g)
              (details_is_tracked (sys_conf sys) (gw_root g) (sys_relative sys q (gw_root g)))
          # [Logged Trace (''  . '' @ sys_relative sys q (gw_root g))]
          @ [Ran (gw_runner g)
               (details_set_assume_unchanged (sys_conf sys) (gw_root g)
                  (sys_relative sys q (gw_root g)) b)]\<rparr>)
    else
      (Inr (),
       \<lparr>world = world_after sys
            (details_is_tracked (sys_conf sys) (gw_root g) (sys_relative sys q (gw_root g)))
            (world s),
        trace = trace s
          @ Ran (gw_runner g)
              (details_is_tracked (sys_conf sys) (gw_root g) (sys_relative sys q (gw_root g)))
          # [Logged Trace (''  . '' @ sys_relative sys q (gw_root g)
                           @ '' (skipping, not tracked)'')]\<rparr>))"
  by (simp add: Let_def then_do_def is_tracked_eq log_def set_assume_unchanged_def run_eq join_eq
      ret_def details_flags)

lemma revert_ts_body:
  "(let rp = sys_relative sys q (gw_root g) in
       then_do (is_tracked sys g rp) (\<lambda>tracked.
         if tracked then
           then_do (run sys g (details_revert (sys_conf sys) (gw_root g) q)) (\<lambda>_. ret ())
         else
           log Debug (''won't try to revert ts file '' @ [CHR 0x27] @ rp @ [CHR 0x27]
                      @ '', not tracked''))) s =
   (if exit_code sys (details_is_tracked (sys_conf sys) (gw_root g) (sys_relative sys q (gw_root g)))
         (world s) = 0 then
      (if exit_code sys (details_revert (sys_conf sys) (gw_root g) q)
            (world_after sys
               (details_is_tracked (sys_conf sys) (gw_root g) (sys_relative sys q (gw_root g)))
               (world s)) \<noteq> 0
       then Inl Bailed else Inr (),
       \<lparr>world = world_after sys (details_revert (sys_conf sys) (gw_root g) q)
            (world_after sys
               (details_is_tracked (sys_conf sys) (gw_root g) (sys_relative sys q (gw_root g)))
               (world s)),
        trace = trace s
          @ Ran (gw_runner g)
              (details_is_tracked (sys_conf sys) (gw_root g) (sys_relative sys q (gw_root g)))
          # [] @ [Ran (gw_runner g) (details_revert (sys_conf sys) (gw_root g) q)]\<rparr>)
    else
      (Inr (),
       \<lparr>world = world_after sys
            (details_is_tracked (sys_conf sys) (gw_root g) (sys_relative sys q (gw_root g)))
            (world s),
        trace = trace s
          @ Ran (gw_runner g)
              (details_is_tracked (sys_conf sys) (gw_root g) (sys_relative sys q (gw_root g)))
          # [Logged Debug (''won't try to revert ts file '' @ [CHR 0x27]
                           @ sys_relative sys q (gw_root g) @ [CHR 0x27]
                           @ '', not tracked'')]\<rparr>))"
  by (simp add: Let_def then_do_def is_tracked_eq log_def run_eq join_eq ret_def details_flags)

lemma ignore_ts_visits:
  fixes sys :: "'w sys" and s :: "'w state"
  shows "guarded sys (ts_of (sys_recursive_directory_iterator sys (gw_root g) (world s)))
           (\<lambda>q. details_is_tracked (sys_conf sys) (gw_root g) (sys_relative sys q (gw_root g)))
           (\<lambda>q. details_set_assume_unchanged (sys_conf sys) (gw_root g)
                  (sys_relative sys q (gw_root g)) b)
           (\<lambda>q. [Logged Trace (''  . '' @ sys_relative sys q (gw_root g))])
           Trace (world s) (added s (snd (ignore_ts sys g b s)))
       \<and> (fst (ignore_ts sys g b s) = Inr () \<longrightarrow>
           all_visited sys (gw_runner g)
             (ts_of (sys_recursive_directory_iterator sys (gw_root g) (world s)))
             (\<lambda>q. details_is_tracked (sys_conf sys) (gw_root g) (sys_relative sys q (gw_root g)))
             (\<lambda>q. details_set_assume_unchanged (sys_conf sys) (gw_root g)
                    (sys_relative sys q (gw_root g)) b)
             (\<lambda>q. [Logged Trace (''  . '' @ sys_relative sys q (gw_root g))])
             (\<lambda>q. [Logged Trace (''  . '' @ sys_relative sys q (gw_root g)
                                  @ '' (skipping, not tracked)'')])
             (world s) (added s (snd (ignore_ts sys g b s))))
       \<and> (fst (ignore_ts sys g b s) \<noteq> Inr () \<longrightarrow>
           failed sys (gw_runner g) (ts_of (sys_recursive_directory_iterator sys (gw_root g) (world s)))
             (\<lambda>q. details_set_assume_unchanged (sys_conf sys) (gw_root g)
                    (sys_relative sys q (gw_root g)) b)
             (world s) (added s (snd (ignore_ts sys g b s))))"
proof -
  let ?f = "\<lambda>p. let rp = sys_relative sys p (gw_root g) in
       then_do (is_tracked sys g rp) (\<lambda>tracked.
         if tracked then
           then_do (log Trace (''  . '' @ rp)) (\<lambda>_. set_assume_unchanged sys g rp b)
         else log Trace (''  . '' @ rp @ '' (skipping, not tracked)''))"
  let ?es = "sys_recursive_directory_iterator sys (gw_root g) (world s)"
  have run: "ignore_ts sys g b s = for_each_entry ?f ?es s"
    by (simp add: ignore_ts_def for_each_ts_def)
  have "\<exists>evs. trace (snd (for_each_entry ?f ?es s)) = trace s @ evs
           \<and> world (snd (for_each_entry ?f ?es s)) = world_at sys evs (world s)
           \<and> guarded sys (ts_of ?es)
               (\<lambda>q. details_is_tracked (sys_conf sys) (gw_root g) (sys_relative sys q (gw_root g)))
               (\<lambda>q. details_set_assume_unchanged (sys_conf sys) (gw_root g)
                      (sys_relative sys q (gw_root g)) b)
               (\<lambda>q. [Logged Trace (''  . '' @ sys_relative sys q (gw_root g))])
               Trace (world s) evs
           \<and> (fst (for_each_entry ?f ?es s) = Inr () \<longrightarrow>
                all_visited sys (gw_runner g) (ts_of ?es)
                  (\<lambda>q. details_is_tracked (sys_conf sys) (gw_root g) (sys_relative sys q (gw_root g)))
                  (\<lambda>q. details_set_assume_unchanged (sys_conf sys) (gw_root g)
                         (sys_relative sys q (gw_root g)) b)
                  (\<lambda>q. [Logged Trace (''  . '' @ sys_relative sys q (gw_root g))])
                  (\<lambda>q. [Logged Trace (''  . '' @ sys_relative sys q (gw_root g)
                                       @ '' (skipping, not tracked)'')])
                  (world s) evs)
            \<and> (fst (for_each_entry ?f ?es s) \<noteq> Inr () \<longrightarrow>
                failed sys (gw_runner g) (ts_of ?es)
                  (\<lambda>q. details_set_assume_unchanged (sys_conf sys) (gw_root g)
                         (sys_relative sys q (gw_root g)) b)
                  (world s) evs)"
    by (rule for_each_entry_visits) (rule ignore_ts_body, simp, simp)
  then show ?thesis
    unfolding run added_def by auto
qed

lemma revert_ts_visits:
  fixes sys :: "'w sys" and s :: "'w state"
  shows "guarded sys (ts_of (sys_recursive_directory_iterator sys (gw_root g) (world s)))
           (\<lambda>q. details_is_tracked (sys_conf sys) (gw_root g) (sys_relative sys q (gw_root g)))
           (\<lambda>q. details_revert (sys_conf sys) (gw_root g) q)
           (\<lambda>q. [])
           Debug (world s) (added s (snd (revert_ts sys g s)))
       \<and> (fst (revert_ts sys g s) = Inr () \<longrightarrow>
           all_visited sys (gw_runner g)
             (ts_of (sys_recursive_directory_iterator sys (gw_root g) (world s)))
             (\<lambda>q. details_is_tracked (sys_conf sys) (gw_root g) (sys_relative sys q (gw_root g)))
             (\<lambda>q. details_revert (sys_conf sys) (gw_root g) q)
             (\<lambda>q. [])
             (\<lambda>q. [Logged Debug (''won't try to revert ts file '' @ [CHR 0x27]
                           @ sys_relative sys q (gw_root g) @ [CHR 0x27]
                           @ '', not tracked'')])
             (world s) (added s (snd (revert_ts sys g s))))
       \<and> (fst (revert_ts sys g s) \<noteq> Inr () \<longrightarrow>
           failed sys (gw_runner g) (ts_of (sys_recursive_directory_iterator sys (gw_root g) (world s)))
             (\<lambda>q. details_revert (sys_conf sys) (gw_root g) q)
             (world s) (added s (snd (revert_ts sys g s))))"
proof -
  let ?f = "\<lambda>p. let rp = sys_relative sys p (gw_root g) in
       then_do (is_tracked sys g rp) (\<lambda>tracked.
         if tracked then
           then_do (run sys g (details_revert (sys_conf sys) (gw_root g) p)) (\<lambda>_. ret ())
         else
           log Debug (''won't try to revert ts file '' @ [CHR 0x27] @ rp @ [CHR 0x27]
                      @ '', not tracked''))"
  let ?es = "sys_recursive_directory_iterator sys (gw_root g) (world s)"
  have run: "revert_ts sys g s = for_each_entry ?f ?es s"
    by (simp add: revert_ts_def for_each_ts_def)
  have "\<exists>evs. trace (snd (for_each_entry ?f ?es s)) = trace s @ evs
           \<and> world (snd (for_each_entry ?f ?es s)) = world_at sys evs (world s)
           \<and> guarded sys (ts_of ?es)
               (\<lambda>q. details_is_tracked (sys_conf sys) (gw_root g) (sys_relative sys q (gw_root g)))
               (\<lambda>q. details_revert (sys_conf sys) (gw_root g) q)
               (\<lambda>q. [])
               Debug (world s) evs
           \<and> (fst (for_each_entry ?f ?es s) = Inr () \<longrightarrow>
                all_visited sys (gw_runner g) (ts_of ?es)
                  (\<lambda>q. details_is_tracked (sys_conf sys) (gw_root g) (sys_relative sys q (gw_root g)))
                  (\<lambda>q. details_revert (sys_conf sys) (gw_root g) q)
                  (\<lambda>q. [])
                  (\<lambda>q. [Logged Debug (''won't try to revert ts file '' @ [CHR 0x27]
                           @ sys_relative sys q (gw_root g) @ [CHR 0x27]
                           @ '', not tracked'')])
                  (world s) evs)
            \<and> (fst (for_each_entry ?f ?es s) \<noteq> Inr () \<longrightarrow>
                failed sys (gw_runner g) (ts_of ?es)
                  (\<lambda>q. details_revert (sys_conf sys) (gw_root g) q)
                  (world s) evs)"
    by (rule for_each_entry_visits) (rule revert_ts_body, simp, simp)
  then show ?thesis
    unfolding run added_def by auto
qed

text \<open>
  Claim C9. Nothing is assumed of git: the process primitive may answer anything, and a
  command may change what is tracked. The translation files are the regular files below
  the root whose extension ends with \<^verbatim>\<open>.ts\<close>, as the directory iterator lists them.

  \<^item> Every process \<^verbatim>\<open>ignore_ts(b)\<close> runs is, for some translation file, either the probe
    \<^verbatim>\<open>git ls-files --error-unmatch\<close> of that file, or \<^verbatim>\<open>git update-index\<close> with the
    assume-unchanged flag for \<open>b\<close> on that file; and the latter only directly after the
    probe of that same file and its trace line, the probe having exited with 0 in the
    world it ran in. Everything else it adds to the trace is a log line at trace level;
    it deletes nothing.
  \<^item> If \<^verbatim>\<open>ignore_ts(b)\<close> returns, every translation file was probed, and its probe is
    followed by the trace line and \<^verbatim>\<open>git update-index\<close> on that file if the probe exited
    with 0, and by the line \<^verbatim>\<open>(skipping, not tracked)\<close> otherwise.
  \<^item> If \<^verbatim>\<open>ignore_ts(b)\<close> does not return, the last thing it did was a
    \<^verbatim>\<open>git update-index\<close> on a translation file, which failed.
  \<^item> The same three hold of \<^verbatim>\<open>revert_ts()\<close>, with \<^verbatim>\<open>git checkout\<close> of the file directly
    after its probe, and log lines at debug level.

  So a translation file whose probe says it is not tracked gets the probe and a log line,
  and nothing else.
\<close>

theorem ts_files_touched_exactly_when_tracked:
  fixes sys :: "'w sys" and s :: "'w state"
  shows
    "(let root = gw_root g; c = sys_conf sys; R = gw_runner g;
          ts = (\<lambda>q. (q, True) \<in> set (sys_recursive_directory_iterator sys root (world s))
                     \<and> ends_with (extension q) ''.ts'');
          rel = (\<lambda>q. sys_relative sys q root);
          probe = (\<lambda>q. details_is_tracked c root (rel q));
          flag = (\<lambda>q. details_set_assume_unchanged c root (rel q) b);
          revert = (\<lambda>q. details_revert c root q);
          world_after_events = (\<lambda>pre. world_at sys pre (world s));
          evi = added s (snd (ignore_ts sys g b s));
          evr = added s (snd (revert_ts sys g s))
      in
        (\<forall>pre e post. evi = pre @ e # post \<longrightarrow>
           (case e of
              Ran r p \<Rightarrow>
                \<exists>q. ts q
                  \<and> (p = probe q
                     \<or> p = flag q
                       \<and> (\<exists>pre'. pre = pre' @ [Ran r (probe q), Logged Trace (''  . '' @ rel q)]
                             \<and> exit_code sys (probe q) (world_after_events pre') = 0))
            | Logged lv m \<Rightarrow> lv = Trace
            | Deleted d \<Rightarrow> False))
      \<and> (fst (ignore_ts sys g b s) = Inr () \<longrightarrow>
           (\<forall>q. ts q \<longrightarrow>
              (\<exists>pre post. evi = pre @ Ran R (probe q) # post
                 \<and> (if exit_code sys (probe q) (world_after_events pre) = 0
                    then \<exists>post'. post = Logged Trace (''  . '' @ rel q) # Ran R (flag q) # post'
                    else \<exists>post'. post = Logged Trace (''  . '' @ rel q
                                                      @ '' (skipping, not tracked)'') # post'))))
      \<and> (fst (ignore_ts sys g b s) \<noteq> Inr () \<longrightarrow>
           (\<exists>pre q. ts q \<and> evi = pre @ [Ran R (flag q)]
              \<and> exit_code sys (flag q) (world_after_events pre) \<noteq> 0))
      \<and> (\<forall>pre e post. evr = pre @ e # post \<longrightarrow>
           (case e of
              Ran r p \<Rightarrow>
                \<exists>q. ts q
                  \<and> (p = probe q
                     \<or> p = revert q
                       \<and> (\<exists>pre'. pre = pre' @ [Ran r (probe q)]
                             \<and> exit_code sys (probe q) (world_after_events pre') = 0))
            | Logged lv m \<Rightarrow> lv = Debug
            | Deleted d \<Rightarrow> False))
      \<and> (fst (revert_ts sys g s) = Inr () \<longrightarrow>
           (\<forall>q. ts q \<longrightarrow>
              (\<exists>pre post. evr = pre @ Ran R (probe q) # post
                 \<and> (if exit_code sys (probe q) (world_after_events pre) = 0
                    then \<exists>post'. post = Ran R (revert q) # post'
                    else \<exists>post'. post = Logged Debug (''won't try to revert ts file ''
                                          @ [CHR 0x27] @ rel q @ [CHR 0x27]
                                          @ '', not tracked'') # post'))))
      \<and> (fst (revert_ts sys g s) \<noteq> Inr () \<longrightarrow>
           (\<exists>pre q. ts q \<and> evr = pre @ [Ran R (revert q)]
              \<and> exit_code sys (revert q) (world_after_events pre) \<noteq> 0)))"
proof -
  note i = ignore_ts_visits [of sys g s b]
  note r = revert_ts_visits [of sys g s]
  note i1 = i [THEN conjunct1, unfolded guarded_def allowed_def ts_of_def]
  note i2 = i [THEN conjunct2, THEN conjunct1, unfolded all_visited_def ts_of_def]
  note i3 = i [THEN conjunct2, THEN conjunct2, unfolded failed_def ts_of_def]
  note r1 = r [THEN conjunct1, unfolded guarded_def allowed_def ts_of_def]
  note r2 = r [THEN conjunct2, THEN conjunct1, unfolded all_visited_def ts_of_def]
  note r3 = r [THEN conjunct2, THEN conjunct2, unfolded failed_def ts_of_def]
  show ?thesis
    unfolding Let_def
  proof (intro conjI)
    show "\<forall>pre e post. added s (snd (ignore_ts sys g b s)) = pre @ e # post \<longrightarrow>
           (case e of
              Ran r p \<Rightarrow>
                \<exists>q. ((q, True) \<in> set (sys_recursive_directory_iterator sys (gw_root g) (world s))
                     \<and> ends_with (extension q) ''.ts'')
                  \<and> (p = details_is_tracked (sys_conf sys) (gw_root g) (sys_relative sys q (gw_root g))
                     \<or> p = details_set_assume_unchanged (sys_conf sys) (gw_root g) (sys_relative sys q (gw_root g)) b
                       \<and> (\<exists>pre'. pre = pre' @ [Ran r (details_is_tracked (sys_conf sys) (gw_root g) (sys_relative sys q (gw_root g))), Logged Trace (''  . '' @ sys_relative sys q (gw_root g))]
                             \<and> exit_code sys (details_is_tracked (sys_conf sys) (gw_root g) (sys_relative sys q (gw_root g))) (world_at sys pre' (world s)) = 0))
            | Logged lv m \<Rightarrow> lv = Trace
            | Deleted d \<Rightarrow> False)"
      by (rule i1)
  next
    show "fst (ignore_ts sys g b s) = Inr () \<longrightarrow>
           (\<forall>q. (q, True) \<in> set (sys_recursive_directory_iterator sys (gw_root g) (world s))
                     \<and> ends_with (extension q) ''.ts'' \<longrightarrow>
              (\<exists>pre post. added s (snd (ignore_ts sys g b s)) = pre @ Ran (gw_runner g) (details_is_tracked (sys_conf sys) (gw_root g) (sys_relative sys q (gw_root g))) # post
                 \<and> (if exit_code sys (details_is_tracked (sys_conf sys) (gw_root g) (sys_relative sys q (gw_root g))) (world_at sys pre (world s)) = 0
                    then \<exists>post'. post = Logged Trace (''  . '' @ sys_relative sys q (gw_root g)) # Ran (gw_runner g) (details_set_assume_unchanged (sys_conf sys) (gw_root g) (sys_relative sys q (gw_root g)) b) # post'
                    else \<exists>post'. post = Logged Trace (''  . '' @ sys_relative sys q (gw_root g)
                                                      @ '' (skipping, not tracked)'') # post')))"
      using i2 by (simp only: append_Cons append_Nil)
  next
    show "fst (ignore_ts sys g b s) \<noteq> Inr () \<longrightarrow>
           (\<exists>pre q. ((q, True) \<in> set (sys_recursive_directory_iterator sys (gw_root g) (world s))
                     \<and> ends_with (extension q) ''.ts'')
              \<and> added s (snd (ignore_ts sys g b s)) = pre @ [Ran (gw_runner g) (details_set_assume_unchanged (sys_conf sys) (gw_root g) (sys_relative sys q (gw_root g)) b)]
              \<and> exit_code sys (details_set_assume_unchanged (sys_conf sys) (gw_root g) (sys_relative sys q (gw_root g)) b) (world_at sys pre (world s)) \<noteq> 0)"
      by (rule i3)
  next
    show "\<forall>pre e post. added s (snd (revert_ts sys g s)) = pre @ e # post \<longrightarrow>
           (case e of
              Ran r p \<Rightarrow>
                \<exists>q. ((q, True) \<in> set (sys_recursive_directory_iterator sys (gw_root g) (world s))
                     \<and> ends_with (extension q) ''.ts'')
                  \<and> (p = details_is_tracked (sys_conf sys) (gw_root g) (sys_relative sys q (gw_root g))
                     \<or> p = details_revert (sys_conf sys) (gw_root g) q
                       \<and> (\<exists>pre'. pre = pre' @ [Ran r (details_is_tracked (sys_conf sys) (gw_root g) (sys_relative sys q (gw_root g)))]
                             \<and> exit_code sys (details_is_tracked (sys_conf sys) (gw_root g) (sys_relative sys q (gw_root g))) (world_at sys pre' (world s)) = 0))
            | Logged lv m \<Rightarrow> lv = Debug
            | Deleted d \<Rightarrow> False)"
      by (rule r1)
  next
    show "fst (revert_ts sys g s) = Inr () \<longrightarrow>
           (\<forall>q. (q, True) \<in> set (sys_recursive_directory_iterator sys (gw_root g) (world s))
                     \<and> ends_with (extension q) ''.ts'' \<longrightarrow>
              (\<exists>pre post. added s (snd (revert_ts sys g s)) = pre @ Ran (gw_runner g) (details_is_tracked (sys_conf sys) (gw_root g) (sys_relative sys q (gw_root g))) # post
                 \<and> (if exit_code sys (details_is_tracked (sys_conf sys) (gw_root g) (sys_relative sys q (gw_root g))) (world_at sys pre (world s)) = 0
                    then \<exists>post'. post = Ran (gw_runner g) (details_revert (sys_conf sys) (gw_root g) q) # post'
                    else \<exists>post'. post = Logged Debug (''won't try to revert ts file ''
                                          @ [CHR 0x27] @ sys_relative sys q (gw_root g) @ [CHR 0x27]
                                          @ '', not tracked'') # post')))"
      using r2 by (simp only: append_Cons append_Nil)
  next
    show "fst (revert_ts sys g s) \<noteq> Inr () \<longrightarrow>
           (\<exists>pre q. ((q, True) \<in> set (sys_recursive_directory_iterator sys (gw_root g) (world s))
                     \<and> ends_with (extension q) ''.ts'')
              \<and> added s (snd (revert_ts sys g s)) = pre @ [Ran (gw_runner g) (details_revert (sys_conf sys) (gw_root g) q)]
              \<and> exit_code sys (details_revert (sys_conf sys) (gw_root g) q) (world_at sys pre (world s)) \<noteq> 0)"
      by (rule r3)
  qed
qed

text \<open>
  The clone with the tracked \<^verbatim>\<open>src/a.ts\<close> and the untracked \<^verbatim>\<open>src/b.ts\<close>:
  \<^verbatim>\<open>ignore_ts(true)\<close> flags \<^verbatim>\<open>src/a.ts\<close>, \<^verbatim>\<open>ignore_ts(false)\<close> after it removes the flag,
  \<^verbatim>\<open>revert_ts()\<close> checks \<^verbatim>\<open>src/a.ts\<close> out, and \<^verbatim>\<open>src/b.ts\<close> is probed, logged and skipped
  each time.
\<close>

lemmas ts_eval = ignore_ts_def revert_ts_def for_each_ts_def sim_start_def sim_wrap_def added_def
  is_tracked_eq set_assume_unchanged_def run_eq join_eq then_do_def ret_def log_def Let_def
  extension_def filename_def is_separator_def ends_with_def sim_defs process_defs

lemma ignore_ts_sim_on:
  "ignore_ts (sim sim_conf ''/r'') sim_wrap True sim_start = (Inr (), sim_flagged)"
  by (simp add: ts_eval sim_flagged_def)

lemma ignore_ts_sim_off:
  "ignore_ts (sim sim_conf ''/r'') sim_wrap False sim_flagged =
     (Inr (),
      \<lparr>world = sim_repo,
       trace = trace sim_flagged
         @ [Ran None (details_is_tracked sim_conf ''/r'' ''src/a.ts''),
            Logged Trace ''  . src/a.ts'',
            Ran None (details_set_assume_unchanged sim_conf ''/r'' ''src/a.ts'' False),
            Ran None (details_is_tracked sim_conf ''/r'' ''src/b.ts''),
            Logged Trace ''  . src/b.ts (skipping, not tracked)'']\<rparr>)"
  by (simp add: ts_eval sim_flagged_def)

lemma revert_ts_sim:
  "revert_ts (sim sim_conf ''/r'') sim_wrap sim_start =
     (Inr (),
      \<lparr>world = sim_repo,
       trace = [Ran None (details_is_tracked sim_conf ''/r'' ''src/a.ts''),
                Ran None (details_revert sim_conf ''/r'' ''/r/src/a.ts''),
                Ran None (details_is_tracked sim_conf ''/r'' ''src/b.ts''),
                Logged Debug (''won't try to revert ts file '' @ [CHR 0x27] @ ''src/b.ts''
                              @ [CHR 0x27] @ '', not tracked'')]\<rparr>)"
  by (simp add: ts_eval)

theorem ts_files_witness:
  "ignore_ts (sim sim_conf ''/r'') sim_wrap True sim_start = (Inr (), sim_flagged)
   \<and> repo_assume_unchanged (world sim_start) = []
   \<and> repo_assume_unchanged (world sim_flagged) = [''src/a.ts'']
   \<and> added sim_start sim_flagged =
       [Ran None (details_is_tracked sim_conf ''/r'' ''src/a.ts''),
        Logged Trace ''  . src/a.ts'',
        Ran None (details_set_assume_unchanged sim_conf ''/r'' ''src/a.ts'' True),
        Ran None (details_is_tracked sim_conf ''/r'' ''src/b.ts''),
        Logged Trace ''  . src/b.ts (skipping, not tracked)'']
   \<and> fst (ignore_ts (sim sim_conf ''/r'') sim_wrap False sim_flagged) = Inr ()
   \<and> repo_assume_unchanged (world (snd (ignore_ts (sim sim_conf ''/r'') sim_wrap False sim_flagged)))
       = []
   \<and> added sim_flagged (snd (ignore_ts (sim sim_conf ''/r'') sim_wrap False sim_flagged)) =
       [Ran None (details_is_tracked sim_conf ''/r'' ''src/a.ts''),
        Logged Trace ''  . src/a.ts'',
        Ran None (details_set_assume_unchanged sim_conf ''/r'' ''src/a.ts'' False),
        Ran None (details_is_tracked sim_conf ''/r'' ''src/b.ts''),
        Logged Trace ''  . src/b.ts (skipping, not tracked)'']
   \<and> fst (revert_ts (sim sim_conf ''/r'') sim_wrap sim_start) = Inr ()
   \<and> added sim_start (snd (revert_ts (sim sim_conf ''/r'') sim_wrap sim_start)) =
       [Ran None (details_is_tracked sim_conf ''/r'' ''src/a.ts''),
        Ran None (details_revert sim_conf ''/r'' ''/r/src/a.ts''),
        Ran None (details_is_tracked sim_conf ''/r'' ''src/b.ts''),
        Logged Debug (''won't try to revert ts file '' @ [CHR 0x27] @ ''src/b.ts''
                      @ [CHR 0x27] @ '', not tracked'')]
   \<and> (\<exists>pre post.
         added sim_start sim_flagged
           = pre @ Ran None (details_is_tracked sim_conf ''/r'' ''src/a.ts'') # post
         \<and> (if exit_code (sim sim_conf ''/r'') (details_is_tracked sim_conf ''/r'' ''src/a.ts'')
                  (world_at (sim sim_conf ''/r'') pre sim_repo) = 0
            then \<exists>post'. post = Logged Trace ''  . src/a.ts''
                   # Ran None (details_set_assume_unchanged sim_conf ''/r'' ''src/a.ts'' True) # post'
            else \<exists>post'. post = Logged Trace ''  . src/a.ts (skipping, not tracked)'' # post'))
   \<and> (\<exists>pre post.
         added sim_flagged (snd (ignore_ts (sim sim_conf ''/r'') sim_wrap False sim_flagged))
           = pre @ Ran None (details_is_tracked sim_conf ''/r'' ''src/b.ts'') # post
         \<and> (if exit_code (sim sim_conf ''/r'') (details_is_tracked sim_conf ''/r'' ''src/b.ts'')
                  (world_at (sim sim_conf ''/r'') pre (world sim_flagged)) = 0
            then \<exists>post'. post = Logged Trace ''  . src/b.ts''
                   # Ran None (details_set_assume_unchanged sim_conf ''/r'' ''src/b.ts'' False) # post'
            else \<exists>post'. post = Logged Trace ''  . src/b.ts (skipping, not tracked)'' # post'))
   \<and> (\<exists>pre post.
         added sim_start (snd (revert_ts (sim sim_conf ''/r'') sim_wrap sim_start))
           = pre @ Ran None (details_is_tracked sim_conf ''/r'' ''src/a.ts'') # post
         \<and> (if exit_code (sim sim_conf ''/r'') (details_is_tracked sim_conf ''/r'' ''src/a.ts'')
                  (world_at (sim sim_conf ''/r'') pre sim_repo) = 0
            then \<exists>post'. post = Ran None (details_revert sim_conf ''/r'' ''/r/src/a.ts'') # post'
            else \<exists>post'. post = Logged Debug (''won't try to revert ts file '' @ [CHR 0x27]
                                  @ ''src/a.ts'' @ [CHR 0x27] @ '', not tracked'') # post'))"
proof -
  let ?sys = "sim sim_conf ''/r''"
  note on = ts_files_touched_exactly_when_tracked
    [where sys = ?sys and g = sim_wrap and s = sim_start and b = True, unfolded Let_def]
  note off = ts_files_touched_exactly_when_tracked
    [where sys = ?sys and g = sim_wrap and s = sim_flagged and b = False, unfolded Let_def]
  have gw: "gw_root sim_wrap = ''/r''" "gw_runner sim_wrap = None"
    by (simp_all add: sim_wrap_def)
  have entries: "sys_recursive_directory_iterator ?sys ''/r'' w = repo_entries w" for w
    by (simp add: sim_def)
  have rel: "sys_relative ?sys q ''/r'' = drop 3 q" for q
    by (simp add: sim_def numeral_3_eq_3)
  have w0: "world sim_start = sim_repo"
    by (simp add: sim_start_def)
  have e1: "repo_entries (world sim_flagged) = repo_entries sim_repo"
    by (simp add: sim_flagged_def)
  have a_ts: "(''/r/src/a.ts'', True)
        \<in> set (sys_recursive_directory_iterator ?sys (gw_root sim_wrap) (world sim_start))
      \<and> ends_with (extension ''/r/src/a.ts'') ''.ts''"
    by (simp add: gw entries w0 sim_repo_def extension_def filename_def is_separator_def
        ends_with_def)
  have b_ts: "(''/r/src/b.ts'', True)
        \<in> set (sys_recursive_directory_iterator ?sys (gw_root sim_wrap) (world sim_flagged))
      \<and> ends_with (extension ''/r/src/b.ts'') ''.ts''"
    by (simp add: gw entries e1 sim_repo_def extension_def filename_def is_separator_def
        ends_with_def)
  have ok_on: "fst (ignore_ts ?sys sim_wrap True sim_start) = Inr ()"
    by (simp add: ignore_ts_sim_on)
  have ok_off: "fst (ignore_ts ?sys sim_wrap False sim_flagged) = Inr ()"
    by (simp add: ignore_ts_sim_off)
  have ok_rev: "fst (revert_ts ?sys sim_wrap sim_start) = Inr ()"
    by (simp add: revert_ts_sim)
  note i1 = on [THEN conjunct2, THEN conjunct1, THEN mp, OF ok_on, THEN spec,
      of "''/r/src/a.ts''", THEN mp, OF a_ts]
  note i2 = off [THEN conjunct2, THEN conjunct1, THEN mp, OF ok_off, THEN spec,
      of "''/r/src/b.ts''", THEN mp, OF b_ts]
  note i3 = on [THEN conjunct2, THEN conjunct2, THEN conjunct2, THEN conjunct2, THEN conjunct1,
      THEN mp, OF ok_rev, THEN spec, of "''/r/src/a.ts''", THEN mp, OF a_ts]
  from i1
  have c1: "\<exists>pre post.
         added sim_start sim_flagged
           = pre @ Ran None (details_is_tracked sim_conf ''/r'' ''src/a.ts'') # post
         \<and> (if exit_code ?sys (details_is_tracked sim_conf ''/r'' ''src/a.ts'')
                  (world_at ?sys pre sim_repo) = 0
            then \<exists>post'. post = Logged Trace ''  . src/a.ts''
                   # Ran None (details_set_assume_unchanged sim_conf ''/r'' ''src/a.ts'' True) # post'
            else \<exists>post'. post = Logged Trace ''  . src/a.ts (skipping, not tracked)'' # post')"
    by (simp add: gw rel w0 sim_conf_of ignore_ts_sim_on cong: if_cong split del: if_split)
  from i2
  have c2: "\<exists>pre post.
         added sim_flagged (snd (ignore_ts ?sys sim_wrap False sim_flagged))
           = pre @ Ran None (details_is_tracked sim_conf ''/r'' ''src/b.ts'') # post
         \<and> (if exit_code ?sys (details_is_tracked sim_conf ''/r'' ''src/b.ts'')
                  (world_at ?sys pre (world sim_flagged)) = 0
            then \<exists>post'. post = Logged Trace ''  . src/b.ts''
                   # Ran None (details_set_assume_unchanged sim_conf ''/r'' ''src/b.ts'' False) # post'
            else \<exists>post'. post = Logged Trace ''  . src/b.ts (skipping, not tracked)'' # post')"
    by (simp add: gw rel sim_conf_of cong: if_cong split del: if_split)
  from i3
  have c3: "\<exists>pre post.
         added sim_start (snd (revert_ts ?sys sim_wrap sim_start))
           = pre @ Ran None (details_is_tracked sim_conf ''/r'' ''src/a.ts'') # post
         \<and> (if exit_code ?sys (details_is_tracked sim_conf ''/r'' ''src/a.ts'')
                  (world_at ?sys pre sim_repo) = 0
            then \<exists>post'. post = Ran None (details_revert sim_conf ''/r'' ''/r/src/a.ts'') # post'
            else \<exists>post'. post = Logged Debug (''won't try to revert ts file '' @ [CHR 0x27]
                                  @ ''src/a.ts'' @ [CHR 0x27] @ '', not tracked'') # post')"
    by (simp add: gw rel w0 sim_conf_of cong: if_cong split del: if_split)
  have t0: "trace sim_start = []"
    by (simp add: sim_start_def)
  have v1: "repo_assume_unchanged (world sim_start) = []
      \<and> repo_assume_unchanged (world sim_flagged) = [''src/a.ts'']
      \<and> added sim_start sim_flagged =
       [Ran None (details_is_tracked sim_conf ''/r'' ''src/a.ts''),
        Logged Trace ''  . src/a.ts'',
        Ran None (details_set_assume_unchanged sim_conf ''/r'' ''src/a.ts'' True),
        Ran None (details_is_tracked sim_conf ''/r'' ''src/b.ts''),
        Logged Trace ''  . src/b.ts (skipping, not tracked)'']"
    by (simp add: sim_start_def sim_flagged_def sim_repo_def added_def)
  have v2: "repo_assume_unchanged (world (snd (ignore_ts ?sys sim_wrap False sim_flagged))) = []
      \<and> added sim_flagged (snd (ignore_ts ?sys sim_wrap False sim_flagged)) =
       [Ran None (details_is_tracked sim_conf ''/r'' ''src/a.ts''),
        Logged Trace ''  . src/a.ts'',
        Ran None (details_set_assume_unchanged sim_conf ''/r'' ''src/a.ts'' False),
        Ran None (details_is_tracked sim_conf ''/r'' ''src/b.ts''),
        Logged Trace ''  . src/b.ts (skipping, not tracked)'']"
    by (simp add: ignore_ts_sim_off added_def sim_repo_def)
  have v3: "added sim_start (snd (revert_ts ?sys sim_wrap sim_start)) =
       [Ran None (details_is_tracked sim_conf ''/r'' ''src/a.ts''),
        Ran None (details_revert sim_conf ''/r'' ''/r/src/a.ts''),
        Ran None (details_is_tracked sim_conf ''/r'' ''src/b.ts''),
        Logged Debug (''won't try to revert ts file '' @ [CHR 0x27] @ ''src/b.ts''
                      @ [CHR 0x27] @ '', not tracked'')]"
    by (simp add: revert_ts_sim added_def t0)
  from ignore_ts_sim_on v1 ok_off v2 ok_rev v3 c1 c2 c3 show ?thesis
    by blast
qed

section \<open>Remotes\<close>

lemma then_do_added_first:
  assumes "\<And>s. \<exists>evs. trace (snd (m s)) = trace s @ e # evs"
    and "\<And>x s. \<exists>evs. trace (snd (k x s)) = trace s @ evs"
  shows "\<exists>evs. trace (snd (then_do m k s)) = trace s @ e # evs"
proof (cases "m s")
  case (Pair r s1)
  from assms(1) [of s] Pair obtain evs1 where t1: "trace s1 = trace s @ e # evs1" by auto
  show ?thesis
  proof (cases r)
    case (Inl err)
    with Pair t1 show ?thesis by (simp add: then_do_def)
  next
    case (Inr x)
    from assms(2) [of x s1] obtain evs2 where "trace (snd (k x s1)) = trace s1 @ evs2" by blast
    with Pair Inr t1 show ?thesis by (simp add: then_do_def)
  qed
qed

lemma then_do_appends:
  assumes "\<And>s. \<exists>evs. trace (snd (m s)) = trace s @ evs"
    and "\<And>x s. \<exists>evs. trace (snd (k x s)) = trace s @ evs"
  shows "\<exists>evs. trace (snd (then_do m k s)) = trace s @ evs"
proof (cases "m s")
  case (Pair r s1)
  from assms(1) [of s] Pair obtain evs1 where t1: "trace s1 = trace s @ evs1" by auto
  show ?thesis
  proof (cases r)
    case (Inl err)
    with Pair t1 show ?thesis by (simp add: then_do_def)
  next
    case (Inr x)
    from assms(2) [of x s1] obtain evs2 where "trace (snd (k x s1)) = trace s1 @ evs2" by blast
    with Pair Inr t1 show ?thesis by (simp add: then_do_def)
  qed
qed

lemma join_appends: "\<exists>evs. trace (snd (join sys r p s)) = trace s @ evs"
  by (simp add: join_eq)

lemma run_appends: "\<exists>evs. trace (snd (run sys g p s)) = trace s @ evs"
  by (simp add: run_eq join_eq)

lemma ret_appends: "\<exists>evs. trace (snd (ret x s)) = trace s @ evs"
  by (simp add: ret_def)

lemma set_config_appends: "\<exists>evs. trace (snd (set_config sys g k v s)) = trace s @ evs"
  unfolding set_config_def by (intro then_do_appends run_appends ret_appends)

lemma has_remote_appends: "\<exists>evs. trace (snd (has_remote sys g n s)) = trace s @ evs"
  by (simp add: has_remote_eq)

lemma git_file_first:
  "\<exists>evs. trace (snd (git_file sys g s)) =
     trace s @ Ran (gw_runner g) (details_remote_url (sys_conf sys) (gw_root g)) # evs"
  by (simp add: git_file_eq Let_def)

lemma add_remote_first:
  "\<exists>evs. trace (snd (add_remote sys g n u k pd pat opt s)) =
     trace s @ Ran (gw_runner g) (details_remote_url (sys_conf sys) (gw_root g)) # evs"
  unfolding add_remote_def Let_def
  apply (rule then_do_added_first [OF git_file_first])
  apply (rule then_do_appends [OF has_remote_appends])
  apply (auto intro!: then_do_appends run_appends ret_appends set_config_appends)
  done

text \<open>
  Claim C2 says that \<^verbatim>\<open>add_remote\<close> looks the origin remote's URL up only when no git
  file is passed. The code does otherwise: the first process \<^verbatim>\<open>add_remote\<close> runs is
  \<^verbatim>\<open>git remote get-url origin\<close> even when a git file is passed, because \<^verbatim>\<open>git_file()\<close> is
  the argument of \<^verbatim>\<open>value_or\<close>. On the clone whose \<^verbatim>\<open>origin\<close> has just been renamed to
  \<^verbatim>\<open>upstream\<close>, that lookup fails and \<^verbatim>\<open>add_remote\<close> bails out without adding anything.
\<close>

theorem add_remote_looks_up_origin_despite_git_file:
  "take 1 (added s (snd (add_remote sys g n u k pd pat (Some gf) s)))
     = [Ran (gw_runner g) (details_remote_url (sys_conf sys) (gw_root g))]
   \<and> add_remote (sim sim_conf ''/r'') sim_wrap ''origin'' ''me'' [] False None
        (Some ''modorganizer.git'') sim_renamed
     = (Inl Bailed, sim_renamed\<lparr>trace := [Ran None (details_remote_url sim_conf ''/r'')]\<rparr>)"
proof
  from add_remote_first [of sys g n u k pd pat "Some gf" s]
  show "take 1 (added s (snd (add_remote sys g n u k pd pat (Some gf) s)))
     = [Ran (gw_runner g) (details_remote_url (sys_conf sys) (gw_root g))]"
    by (auto simp: added_def)
next
  show "add_remote (sim sim_conf ''/r'') sim_wrap ''origin'' ''me'' [] False None
        (Some ''modorganizer.git'') sim_renamed
     = (Inl Bailed, sim_renamed\<lparr>trace := [Ran None (details_remote_url sim_conf ''/r'')]\<rparr>)"
    by (simp add: add_remote_def git_file_eq then_do_def Let_def sim_renamed_def sim_wrap_def
        sim_defs process_defs)
qed

lemma set_origin_and_upstream_remotes_noop:
  "exit_code sys (details_has_remote (sys_conf sys) (gw_root g) ''upstream'') (world s) = 0 \<Longrightarrow>
   set_origin_and_upstream_remotes sys g org key no_push push_default s =
     (Inr (),
      \<lparr>world = world_after sys (details_has_remote (sys_conf sys) (gw_root g) ''upstream'')
                (world s),
       trace = trace s @
         [Ran (gw_runner g) (details_has_remote (sys_conf sys) (gw_root g) ''upstream''),
          Logged Trace ''upstream remote already exists'']\<rparr>)"
  by (simp add: set_origin_and_upstream_remotes_def has_remote_eq then_do_def log_def)

lemma first_call:
  "set_origin_and_upstream_remotes (sim sim_conf ''/r'') sim_wrap ''me'' [] True True sim_start
   = (Inl Bailed,
      \<lparr>world = sim_repo\<lparr>repo_remotes :=
                 [(''upstream'', ''git@github.com:org/modorganizer.git'')]\<rparr>,
       trace = [Ran None (details_has_remote sim_conf ''/r'' ''upstream''),
                Ran None (details_remote_url sim_conf ''/r''),
                Ran None (details_rename_remote sim_conf ''/r'' ''origin'' ''upstream''),
                Ran None (details_set_remote_push sim_conf ''/r'' ''upstream'' ''nopushurl''),
                Ran None (details_remote_url sim_conf ''/r'')]\<rparr>)"
  by (simp add: set_origin_and_upstream_remotes_def add_remote_def has_remote_eq git_file_eq
      rename_remote_def set_remote_push_def run_eq join_eq then_do_def ret_def Let_def
      sim_start_def sim_wrap_def trim_copy_def is_space_def sim_defs process_defs)

text \<open>
  Claim C3 says that calling \<^verbatim>\<open>set_origin_and_upstream_remotes\<close> twice never errors.
  On the clone with the single remote \<^verbatim>\<open>origin\<close> the first call bails out: it looks the
  git file up, renames \<^verbatim>\<open>origin\<close> to \<^verbatim>\<open>upstream\<close>, sets the push URL, and then
  \<^verbatim>\<open>add_remote\<close> looks \<^verbatim>\<open>origin\<close> up again, which is gone. The repository is left with
  \<^verbatim>\<open>upstream\<close> alone and no new \<^verbatim>\<open>origin\<close>. The second call is the no-op the claim
  describes: it finds \<^verbatim>\<open>upstream\<close>, logs, and returns.
\<close>

theorem set_origin_and_upstream_remotes_first_call_bails:
  "(let first = set_origin_and_upstream_remotes (sim sim_conf ''/r'') sim_wrap ''me'' [] True True
                  sim_start;
        second = set_origin_and_upstream_remotes (sim sim_conf ''/r'') sim_wrap ''me'' [] True
                   True (snd first)
    in fst first = Inl Bailed
     \<and> added sim_start (snd first) =
         [Ran None (details_has_remote sim_conf ''/r'' ''upstream''),
          Ran None (details_remote_url sim_conf ''/r''),
          Ran None (details_rename_remote sim_conf ''/r'' ''origin'' ''upstream''),
          Ran None (details_set_remote_push sim_conf ''/r'' ''upstream'' ''nopushurl''),
          Ran None (details_remote_url sim_conf ''/r'')]
     \<and> repo_remotes (world (snd first))
         = [(''upstream'', ''git@github.com:org/modorganizer.git'')]
     \<and> fst second = Inr ()
     \<and> added (snd first) (snd second) =
         [Ran None (details_has_remote sim_conf ''/r'' ''upstream''),
          Logged Trace ''upstream remote already exists'']
     \<and> repo_remotes (world (snd second))
         = [(''upstream'', ''git@github.com:org/modorganizer.git'')])"
proof -
  have up: "exit_code (sim sim_conf ''/r'') (details_has_remote sim_conf ''/r'' ''upstream'')
      (sim_repo\<lparr>repo_remotes := [(''upstream'', ''git@github.com:org/modorganizer.git'')]\<rparr>) = 0"
    by (simp add: sim_defs process_defs)
  have same: "world_after (sim sim_conf ''/r'') (details_has_remote sim_conf ''/r'' ''upstream'')
      (sim_repo\<lparr>repo_remotes := [(''upstream'', ''git@github.com:org/modorganizer.git'')]\<rparr>)
      = sim_repo\<lparr>repo_remotes := [(''upstream'', ''git@github.com:org/modorganizer.git'')]\<rparr>"
    by (simp add: sim_defs process_defs)
  show ?thesis
    by (simp add: Let_def first_call added_def)
      (simp add: sim_start_def set_origin_and_upstream_remotes_noop sim_conf_of sim_wrap_def
        up same)
qed

section \<open>The submodule adder\<close>














lemma list_all_nth: "list_all P xs \<Longrightarrow> i < length xs \<Longrightarrow> P (xs ! i)"
  by (simp add: list_all_length)


























end
